theory Spec2Isabelle
  imports Complex_Main "HOL-Library.Monad_Syntax"
begin

section \<open>JavaScript numbers\<close>

text \<open>
  The program is TypeScript; every quantity is a JavaScript \<^verbatim>\<open>number\<close>.
  The embedding keeps the three exceptional values of IEEE 754 (the two infinities and
  NaN), because the code divides without testing the divisor, and idealises the finite
  values as real numbers: rounding, overflow of finite arithmetic and the sign of zero
  are not modelled (a zero divisor is taken as \<^verbatim>\<open>+0\<close>, which is what
  \<^verbatim>\<open>x - x\<close> and \<^verbatim>\<open>Math.sqrt(0)\<close> produce).
\<close>

datatype jsnum = Fin real | PInf | NInf | NaN

instantiation jsnum :: "{plus, minus, uminus, times, inverse}"
begin

fun plus_jsnum :: "jsnum \<Rightarrow> jsnum \<Rightarrow> jsnum" where
  "plus_jsnum (Fin a) (Fin b) = Fin (a + b)"
| "plus_jsnum NaN y = NaN"
| "plus_jsnum x NaN = NaN"
| "plus_jsnum PInf NInf = NaN"
| "plus_jsnum NInf PInf = NaN"
| "plus_jsnum PInf y = PInf"
| "plus_jsnum x PInf = PInf"
| "plus_jsnum NInf y = NInf"
| "plus_jsnum x NInf = NInf"

fun uminus_jsnum :: "jsnum \<Rightarrow> jsnum" where
  "uminus_jsnum (Fin a) = Fin (- a)"
| "uminus_jsnum PInf = NInf"
| "uminus_jsnum NInf = PInf"
| "uminus_jsnum NaN = NaN"

definition minus_jsnum :: "jsnum \<Rightarrow> jsnum \<Rightarrow> jsnum" where
  "minus_jsnum x y = x + (- y)"

fun times_jsnum :: "jsnum \<Rightarrow> jsnum \<Rightarrow> jsnum" where
  "times_jsnum (Fin a) (Fin b) = Fin (a * b)"
| "times_jsnum NaN y = NaN"
| "times_jsnum x NaN = NaN"
| "times_jsnum PInf (Fin b) = (if b = 0 then NaN else if 0 < b then PInf else NInf)"
| "times_jsnum NInf (Fin b) = (if b = 0 then NaN else if 0 < b then NInf else PInf)"
| "times_jsnum (Fin a) PInf = (if a = 0 then NaN else if 0 < a then PInf else NInf)"
| "times_jsnum (Fin a) NInf = (if a = 0 then NaN else if 0 < a then NInf else PInf)"
| "times_jsnum PInf PInf = PInf"
| "times_jsnum PInf NInf = NInf"
| "times_jsnum NInf PInf = NInf"
| "times_jsnum NInf NInf = PInf"

fun divide_jsnum :: "jsnum \<Rightarrow> jsnum \<Rightarrow> jsnum" where
  "divide_jsnum (Fin a) (Fin b) =
     (if b \<noteq> 0 then Fin (a / b)
      else if a = 0 then NaN else if 0 < a then PInf else NInf)"
| "divide_jsnum NaN y = NaN"
| "divide_jsnum x NaN = NaN"
| "divide_jsnum (Fin a) PInf = Fin 0"
| "divide_jsnum (Fin a) NInf = Fin 0"
| "divide_jsnum PInf (Fin b) = (if 0 \<le> b then PInf else NInf)"
| "divide_jsnum NInf (Fin b) = (if 0 \<le> b then NInf else PInf)"
| "divide_jsnum PInf PInf = NaN"
| "divide_jsnum PInf NInf = NaN"
| "divide_jsnum NInf PInf = NaN"
| "divide_jsnum NInf NInf = NaN"

definition inverse_jsnum :: "jsnum \<Rightarrow> jsnum" where
  "inverse_jsnum x = divide (Fin 1) x"

instance ..

end

text \<open>The comparisons \<^verbatim>\<open>a > b\<close>, \<^verbatim>\<open>a < b\<close> and \<^verbatim>\<open>a >= b\<close>: false as soon as one side is NaN.\<close>

fun js_gt :: "jsnum \<Rightarrow> jsnum \<Rightarrow> bool" where
  "js_gt (Fin a) (Fin b) = (b < a)"
| "js_gt NaN y = False"
| "js_gt x NaN = False"
| "js_gt PInf PInf = False"
| "js_gt PInf y = True"
| "js_gt x NInf = (x \<noteq> NInf)"
| "js_gt x PInf = False"
| "js_gt NInf y = False"

definition js_lt :: "jsnum \<Rightarrow> jsnum \<Rightarrow> bool" where
  "js_lt x y = js_gt y x"

fun js_ge :: "jsnum \<Rightarrow> jsnum \<Rightarrow> bool" where
  "js_ge (Fin a) (Fin b) = (b \<le> a)"
| "js_ge NaN y = False"
| "js_ge x NaN = False"
| "js_ge PInf y = True"
| "js_ge x NInf = True"
| "js_ge x PInf = False"
| "js_ge NInf y = False"

fun isFinite :: "jsnum \<Rightarrow> bool" where
  "isFinite (Fin a) = True"
| "isFinite x = False"

subsection \<open>The functions of \<^verbatim>\<open>Math\<close> that the code calls\<close>

text \<open>
  These are built into the language; they are written here after ECMA-262, on the
  idealised numbers.
\<close>

definition Math_PI :: jsnum where
  "Math_PI = Fin pi"

fun Math_min :: "jsnum \<Rightarrow> jsnum \<Rightarrow> jsnum" where
  "Math_min (Fin a) (Fin b) = Fin (min a b)"
| "Math_min NaN y = NaN"
| "Math_min x NaN = NaN"
| "Math_min NInf y = NInf"
| "Math_min x NInf = NInf"
| "Math_min PInf y = y"
| "Math_min x PInf = x"

fun Math_sqrt :: "jsnum \<Rightarrow> jsnum" where
  "Math_sqrt (Fin a) = (if a < 0 then NaN else Fin (sqrt a))"
| "Math_sqrt PInf = PInf"
| "Math_sqrt NInf = NaN"
| "Math_sqrt NaN = NaN"

fun Math_abs :: "jsnum \<Rightarrow> jsnum" where
  "Math_abs (Fin a) = Fin \<bar>a\<bar>"
| "Math_abs PInf = PInf"
| "Math_abs NInf = PInf"
| "Math_abs NaN = NaN"

fun Math_sign :: "jsnum \<Rightarrow> jsnum" where
  "Math_sign (Fin a) = Fin (sgn a)"
| "Math_sign PInf = Fin 1"
| "Math_sign NInf = Fin (- 1)"
| "Math_sign NaN = NaN"

fun Math_asin :: "jsnum \<Rightarrow> jsnum" where
  "Math_asin (Fin a) = (if \<bar>a\<bar> \<le> 1 then Fin (arcsin a) else NaN)"
| "Math_asin x = NaN"

text \<open>The two-argument arctangent on the reals, with its result in \<open>(-\<pi>, \<pi>]\<close>.\<close>

definition atan2r :: "real \<Rightarrow> real \<Rightarrow> real" where
  "atan2r y x =
     (if 0 < x then arctan (y / x)
      else if x < 0 then (if 0 \<le> y then arctan (y / x) + pi else arctan (y / x) - pi)
      else if 0 < y then pi / 2
      else if y < 0 then - (pi / 2)
      else 0)"

fun Math_atan2 :: "jsnum \<Rightarrow> jsnum \<Rightarrow> jsnum" where
  "Math_atan2 (Fin y) (Fin x) = Fin (atan2r y x)"
| "Math_atan2 NaN x = NaN"
| "Math_atan2 y NaN = NaN"
| "Math_atan2 (Fin y) PInf = Fin 0"
| "Math_atan2 (Fin y) NInf = Fin (if 0 \<le> y then pi else - pi)"
| "Math_atan2 PInf (Fin x) = Fin (pi / 2)"
| "Math_atan2 NInf (Fin x) = Fin (- (pi / 2))"
| "Math_atan2 PInf PInf = Fin (pi / 4)"
| "Math_atan2 PInf NInf = Fin (3 * pi / 4)"
| "Math_atan2 NInf PInf = Fin (- (pi / 4))"
| "Math_atan2 NInf NInf = Fin (- (3 * pi / 4))"

section \<open>Samples\<close>

text \<open>
  \<^verbatim>\<open>interface SensorDataPoint\<close>. The fused fields are optional in the source. The
  relative time is declared a number, but \<^verbatim>\<open>calculateDt\<close> tests it against
  \<^verbatim>\<open>undefined\<close>, so it is optional here as well.
\<close>

record SensorDataPoint =
  timestamp :: jsnum
  relativeTime :: "jsnum option"
  accelX :: jsnum
  accelY :: jsnum
  accelZ :: jsnum
  gyroX :: jsnum
  gyroY :: jsnum
  gyroZ :: jsnum
  altitude :: jsnum
  roll :: "jsnum option"
  pitch :: "jsnum option"
  yaw :: "jsnum option"
  compAccelX :: "jsnum option"
  compAccelY :: "jsnum option"
  compAccelZ :: "jsnum option"

section \<open>What the three filters share\<close>

text \<open>\<^verbatim>\<open>calculateDt\<close>, declared anew with the same body inside each filter.\<close>

definition calculateDt :: "SensorDataPoint \<Rightarrow> SensorDataPoint option \<Rightarrow> jsnum" where
  "calculateDt current previous =
     (case previous of
        None \<Rightarrow> Fin 0.1
      | Some prev \<Rightarrow>
          (case (relativeTime current, relativeTime prev) of
             (Some c, Some p) \<Rightarrow> c - p
           | _ \<Rightarrow> (timestamp current - timestamp prev) / Fin 1000))"

text \<open>
  \<^verbatim>\<open>while (yaw > 180) yaw -= 360;\<close> and \<^verbatim>\<open>while (yaw < -180) yaw += 360;\<close>.
  On an infinite angle the loop never ends (\<^verbatim>\<open>Infinity - 360\<close> is
  \<^verbatim>\<open>Infinity\<close>), hence the option: \<open>None\<close> is a run that does not return.
\<close>

partial_function (option) wrap_down :: "jsnum \<Rightarrow> jsnum option" where
  "wrap_down y = (if js_gt y (Fin 180) then wrap_down (y - Fin 360) else Some y)"

partial_function (option) wrap_up :: "jsnum \<Rightarrow> jsnum option" where
  "wrap_up y = (if js_lt y (Fin (- 180)) then wrap_up (y + Fin 360) else Some y)"

definition wrap180 :: "jsnum \<Rightarrow> jsnum option" where
  "wrap180 y = wrap_down y \<bind> wrap_up"

text \<open>\<^verbatim>\<open>Math.atan2(ay, az) * (180 / Math.PI)\<close> and its companion for the pitch.\<close>

definition accelRollOf :: "jsnum \<Rightarrow> jsnum \<Rightarrow> jsnum \<Rightarrow> jsnum" where
  "accelRollOf ax ay az = Math_atan2 ay az * (Fin 180 / Math_PI)"

definition accelPitchOf :: "jsnum \<Rightarrow> jsnum \<Rightarrow> jsnum \<Rightarrow> jsnum" where
  "accelPitchOf ax ay az =
     Math_atan2 (- ax) (Math_sqrt (ay * ay + az * az)) * (Fin 180 / Math_PI)"

section \<open>The complementary filter\<close>

text \<open>
  One turn of the loop of \<^verbatim>\<open>applyComplementaryFilter\<close>. The previous point is
  \<open>None\<close> exactly when \<^verbatim>\<open>i\<close> is 0, so the test \<^verbatim>\<open>i > 0\<close> is a test on it.
  The result is the new running \<open>(roll, pitch, yaw)\<close>.
\<close>

definition compStep ::
  "jsnum \<Rightarrow> SensorDataPoint option \<Rightarrow> jsnum \<times> jsnum \<times> jsnum \<Rightarrow> SensorDataPoint
     \<Rightarrow> (jsnum \<times> jsnum \<times> jsnum) option" where
  "compStep alpha prevPoint st point =
     (case st of (roll0, pitch0, yaw0) \<Rightarrow>
        let dt = calculateDt point prevPoint;
            accelRoll = accelRollOf (accelX point) (accelY point) (accelZ point);
            accelPitch = accelPitchOf (accelX point) (accelY point) (accelZ point)
        in if prevPoint \<noteq> None then
             let limitedDt = Math_min dt (Fin 0.5);
                 roll1 = alpha * (roll0 + gyroX point * limitedDt) + (Fin 1 - alpha) * accelRoll;
                 pitch1 = alpha * (pitch0 + gyroY point * limitedDt) + (Fin 1 - alpha) * accelPitch
             in do { yaw1 \<leftarrow> wrap180 (yaw0 + gyroZ point * limitedDt);
                     Some (roll1, pitch1, yaw1) }
           else Some (roll0, pitch0, yaw0))"

definition setAngles :: "jsnum \<times> jsnum \<times> jsnum \<Rightarrow> SensorDataPoint \<Rightarrow> SensorDataPoint" where
  "setAngles st point =
     (case st of (r, p, y) \<Rightarrow> point\<lparr>roll := Some r, pitch := Some p, yaw := Some y\<rparr>)"

fun compLoop ::
  "jsnum \<Rightarrow> SensorDataPoint option \<Rightarrow> jsnum \<times> jsnum \<times> jsnum \<Rightarrow> SensorDataPoint list
     \<Rightarrow> SensorDataPoint list option" where
  "compLoop alpha prevPoint st [] = Some []"
| "compLoop alpha prevPoint st (point # rest) =
     do { st1 \<leftarrow> compStep alpha prevPoint st point;
          let point1 = setAngles st1 point;
          out \<leftarrow> compLoop alpha (Some point1) st1 rest;
          Some (point1 # out) }"

definition applyComplementaryFilter ::
  "SensorDataPoint list \<Rightarrow> jsnum \<Rightarrow> SensorDataPoint list option" where
  "applyComplementaryFilter data alpha =
     (case data of
        [] \<Rightarrow> Some []
      | firstPoint # _ \<Rightarrow>
          let roll0 = accelRollOf (accelX firstPoint) (accelY firstPoint) (accelZ firstPoint);
              pitch0 = accelPitchOf (accelX firstPoint) (accelY firstPoint) (accelZ firstPoint)
          in compLoop alpha None (roll0, pitch0, Fin 0) data)"

section \<open>The complementary filter with the sensor moved to the centre of mass\<close>

text \<open>
  A read of an array element; past the end JavaScript yields \<^verbatim>\<open>undefined\<close>, which
  every arithmetic operation turns into NaN.
\<close>

definition nth_num :: "jsnum list \<Rightarrow> nat \<Rightarrow> jsnum" where
  "nth_num xs i = (if i < length xs then xs ! i else NaN)"

text \<open>\<^verbatim>\<open>compensateAcceleration\<close>; the object it returns is the triple \<open>(x, y, z)\<close>.\<close>

definition compensateAcceleration ::
  "jsnum \<Rightarrow> jsnum \<Rightarrow> jsnum \<Rightarrow> jsnum \<Rightarrow> jsnum \<Rightarrow> jsnum \<Rightarrow> jsnum \<Rightarrow> jsnum \<Rightarrow> jsnum
     \<Rightarrow> jsnum list \<Rightarrow> jsnum \<times> jsnum \<times> jsnum" where
  "compensateAcceleration ax ay az gx gy gz angAccelX angAccelY angAccelZ sensorPosition =
     (let rx = nth_num sensorPosition 0;
          ry = nth_num sensorPosition 1;
          rz = nth_num sensorPosition 2;
          wxr_x = gy * rz - gz * ry;
          wxr_y = gz * rx - gx * rz;
          wxr_z = gx * ry - gy * rx;
          centripetal_x = gy * wxr_z - gz * wxr_y;
          centripetal_y = gz * wxr_x - gx * wxr_z;
          centripetal_z = gx * wxr_y - gy * wxr_x;
          tangential_x = angAccelY * rz - angAccelZ * ry;
          tangential_y = angAccelZ * rx - angAccelX * rz;
          tangential_z = angAccelX * ry - angAccelY * rx;
          totalRotationalEffect_x = centripetal_x + tangential_x;
          totalRotationalEffect_y = centripetal_y + tangential_y;
          totalRotationalEffect_z = centripetal_z + tangential_z
      in (ax - totalRotationalEffect_x, ay - totalRotationalEffect_y, az - totalRotationalEffect_z))"

definition distanceFromCM :: jsnum where
  "distanceFromCM = Fin 0.030"

definition sensorPositionVector :: "jsnum list" where
  "sensorPositionVector = [Fin 0, Fin 0, distanceFromCM]"

text \<open>
  The running state of \<^verbatim>\<open>applyImprovedComplementaryFilter\<close>: roll, pitch, yaw and
  the gyroscope reading of the turn before.
\<close>

type_synonym improvedState = "(jsnum \<times> jsnum \<times> jsnum) \<times> (jsnum \<times> jsnum \<times> jsnum)"

text \<open>
  One turn of its loop. The angular acceleration divides by the raw \<^verbatim>\<open>dt\<close>; only the
  integration uses \<^verbatim>\<open>limitedDt\<close>. The result is the new state and the
  compensated acceleration that the turn stores on the sample.
\<close>

definition improvedStep ::
  "jsnum \<Rightarrow> SensorDataPoint option \<Rightarrow> improvedState \<Rightarrow> SensorDataPoint
     \<Rightarrow> (improvedState \<times> (jsnum \<times> jsnum \<times> jsnum)) option" where
  "improvedStep alpha prevPoint st point =
     (case st of ((roll0, pitch0, yaw0), (prevGyroX, prevGyroY, prevGyroZ)) \<Rightarrow>
        let dt = calculateDt point prevPoint;
            angAccelX = (gyroX point - prevGyroX) / dt;
            angAccelY = (gyroY point - prevGyroY) / dt;
            angAccelZ = (gyroZ point - prevGyroZ) / dt;
            prevGyro1 = (gyroX point, gyroY point, gyroZ point);
            compensatedAccel =
              compensateAcceleration (accelX point) (accelY point) (accelZ point)
                (gyroX point) (gyroY point) (gyroZ point)
                angAccelX angAccelY angAccelZ sensorPositionVector
        in case compensatedAccel of (cx, cy, cz) \<Rightarrow>
          let accelRoll = accelRollOf cx cy cz;
              accelPitch = accelPitchOf cx cy cz
          in if prevPoint \<noteq> None then
               let limitedDt = Math_min dt (Fin 0.5);
                   roll1 = alpha * (roll0 + gyroX point * limitedDt) + (Fin 1 - alpha) * accelRoll;
                   pitch1 = alpha * (pitch0 + gyroY point * limitedDt) + (Fin 1 - alpha) * accelPitch
               in do { yaw1 \<leftarrow> wrap180 (yaw0 + gyroZ point * limitedDt);
                       Some (((roll1, pitch1, yaw1), prevGyro1), compensatedAccel) }
             else Some (((roll0, pitch0, yaw0), prevGyro1), compensatedAccel))"

definition setCompAccel :: "jsnum \<times> jsnum \<times> jsnum \<Rightarrow> SensorDataPoint \<Rightarrow> SensorDataPoint" where
  "setCompAccel c point =
     (case c of (cx, cy, cz) \<Rightarrow>
        point\<lparr>compAccelX := Some cx, compAccelY := Some cy, compAccelZ := Some cz\<rparr>)"

fun improvedLoop ::
  "jsnum \<Rightarrow> SensorDataPoint option \<Rightarrow> improvedState \<Rightarrow> SensorDataPoint list
     \<Rightarrow> SensorDataPoint list option" where
  "improvedLoop alpha prevPoint st [] = Some []"
| "improvedLoop alpha prevPoint st (point # rest) =
     do { (st1, c) \<leftarrow> improvedStep alpha prevPoint st point;
          let point1 = setCompAccel c (setAngles (fst st1) point);
          out \<leftarrow> improvedLoop alpha (Some point1) st1 rest;
          Some (point1 # out) }"

definition applyImprovedComplementaryFilter ::
  "SensorDataPoint list \<Rightarrow> jsnum \<Rightarrow> SensorDataPoint list option" where
  "applyImprovedComplementaryFilter data alpha =
     (case data of
        [] \<Rightarrow> Some []
      | firstPoint # _ \<Rightarrow>
          (case compensateAcceleration (accelX firstPoint) (accelY firstPoint) (accelZ firstPoint)
                  (Fin 0) (Fin 0) (Fin 0) (Fin 0) (Fin 0) (Fin 0) sensorPositionVector of
             (ix, iy, iz) \<Rightarrow>
               let roll0 = accelRollOf ix iy iz;
                   pitch0 = accelPitchOf ix iy iz
               in improvedLoop alpha None
                    ((roll0, pitch0, Fin 0), (gyroX firstPoint, gyroY firstPoint, gyroZ firstPoint))
                    data))"

section \<open>The Kalman filter\<close>

subsection \<open>The matrix helpers\<close>

text \<open>
  Matrices are arrays of rows. Every read goes through \<open>nth_num\<close>; a read of a row that
  does not exist would throw in the source, which the filter, working on six by six
  matrices only, never does: such a row is taken as empty here.
\<close>

definition rowOf :: "jsnum list list \<Rightarrow> nat \<Rightarrow> jsnum list" where
  "rowOf A i = (if i < length A then A ! i else [])"

definition entry :: "jsnum list list \<Rightarrow> nat \<Rightarrow> nat \<Rightarrow> jsnum" where
  "entry A i j = nth_num (rowOf A i) j"

definition multiplyMatrixVector :: "jsnum list list \<Rightarrow> jsnum list \<Rightarrow> jsnum list" where
  "multiplyMatrixVector A v =
     map (\<lambda>i. foldl (\<lambda>acc j. acc + entry A i j * nth_num v j) (Fin 0) [0..<length v])
       [0..<length A]"

definition multiplyMatrices :: "jsnum list list \<Rightarrow> jsnum list list \<Rightarrow> jsnum list list" where
  "multiplyMatrices A B =
     map (\<lambda>i. map (\<lambda>j. foldl (\<lambda>acc k. acc + entry A i k * entry B k j) (Fin 0)
                          [0..<length (rowOf A 0)])
                [0..<length (rowOf B 0)])
       [0..<length A]"

definition transposeMatrix :: "jsnum list list \<Rightarrow> jsnum list list" where
  "transposeMatrix A =
     map (\<lambda>j. map (\<lambda>i. entry A i j) [0..<length A]) [0..<length (rowOf A 0)]"

definition addMatrices :: "jsnum list list \<Rightarrow> jsnum list list \<Rightarrow> jsnum list list" where
  "addMatrices A B =
     map (\<lambda>i. map (\<lambda>j. entry A i j + entry B i j) [0..<length (rowOf A 0)]) [0..<length A]"

definition subtractMatrices :: "jsnum list list \<Rightarrow> jsnum list list \<Rightarrow> jsnum list list" where
  "subtractMatrices A B =
     map (\<lambda>i. map (\<lambda>j. entry A i j - entry B i j) [0..<length (rowOf A 0)]) [0..<length A]"

text \<open>\<^verbatim>\<open>invertMatrix\<close> inverts the diagonal and leaves every other entry 0.\<close>

definition invertMatrix :: "jsnum list list \<Rightarrow> jsnum list list" where
  "invertMatrix A =
     map (\<lambda>i. map (\<lambda>j. if i = j then Fin 1.0 / entry A i i else Fin 0)
                [0..<length (rowOf A 0)])
       [0..<length A]"

subsection \<open>The filter\<close>

definition diagonal6 :: "(nat \<Rightarrow> jsnum) \<Rightarrow> jsnum list list" where
  "diagonal6 d = map (\<lambda>i. map (\<lambda>j. if i = j then d i else Fin 0) [0..<6]) [0..<6]"

definition processNoise :: jsnum where "processNoise = Fin 0.01"
definition measurementNoiseAccel :: jsnum where "measurementNoiseAccel = Fin 0.1"
definition measurementNoiseGyro :: jsnum where "measurementNoiseGyro = Fin 0.01"

definition P_init :: "jsnum list list" where
  "P_init = diagonal6 (\<lambda>i. if i < 3 then Fin 1000 else Fin 100)"

definition Q_mat :: "jsnum list list" where
  "Q_mat = diagonal6 (\<lambda>i. processNoise)"

definition R_mat :: "jsnum list list" where
  "R_mat = diagonal6 (\<lambda>i. if i < 3 then measurementNoiseAccel else measurementNoiseGyro)"

definition identity6 :: "jsnum list list" where
  "identity6 = diagonal6 (\<lambda>i. Fin 1)"

definition H_mat :: "jsnum list list" where
  "H_mat = identity6"

text \<open>\<^verbatim>\<open>F[i][j] = v\<close> on an array of rows.\<close>

definition setEntry :: "jsnum list list \<Rightarrow> nat \<Rightarrow> nat \<Rightarrow> jsnum \<Rightarrow> jsnum list list" where
  "setEntry A i j v = A[i := (rowOf A i)[j := v]]"

text \<open>
  The running state: the estimate \<open>x\<close>, its covariance \<open>P\<close>, and the transition matrix
  \<open>F\<close>, which the loop updates in place.
\<close>

type_synonym kalmanState = "jsnum list \<times> jsnum list list \<times> jsnum list list"

text \<open>
  One turn of the loop is one block in the source; it is cut here at its own comments.
  First \<^verbatim>\<open>F[0][3] = F[1][4] = F[2][5] = limitedDt\<close>.
\<close>

definition kalmanTransition :: "jsnum list list \<Rightarrow> jsnum \<Rightarrow> jsnum list list" where
  "kalmanTransition F0 limitedDt =
     setEntry (setEntry (setEntry F0 0 3 limitedDt) 1 4 limitedDt) 2 5 limitedDt"

text \<open>\<^verbatim>\<open>1. Predizione\<close>: \<open>P_pred = F P F\<^sup>T + Q\<close>.\<close>

definition kalmanPredictCovariance ::
  "jsnum list list \<Rightarrow> jsnum list list \<Rightarrow> jsnum list list" where
  "kalmanPredictCovariance F P =
     (let FP = multiplyMatrices F P;
          FT = transposeMatrix F;
          FPFT = multiplyMatrices FP FT
      in addMatrices FPFT Q_mat)"

text \<open>\<^verbatim>\<open>2. Ottieni le misurazioni\<close>: the vector \<open>z\<close>.\<close>

definition kalmanMeasurement :: "SensorDataPoint \<Rightarrow> jsnum list \<Rightarrow> jsnum \<Rightarrow> jsnum list" where
  "kalmanMeasurement point x_pred limitedDt =
     (let accelRoll = accelRollOf (accelX point) (accelY point) (accelZ point);
          accelPitch = accelPitchOf (accelX point) (accelY point) (accelZ point)
      in [accelRoll, accelPitch, nth_num x_pred 2 + gyroZ point * limitedDt,
          gyroX point, gyroY point, gyroZ point])"

text \<open>\<^verbatim>\<open>3. Aggiornamento\<close>: the innovation \<open>y = z - H x_pred\<close>.\<close>

definition kalmanInnovation :: "jsnum list \<Rightarrow> jsnum list \<Rightarrow> jsnum list" where
  "kalmanInnovation z x_pred =
     (let Hx = multiplyMatrixVector H_mat x_pred
      in map (\<lambda>idx. nth_num z idx - nth_num Hx idx) [0..<length z])"

text \<open>The gain \<open>K = P_pred H\<^sup>T S\<^sup>-\<^sup>1\<close> with \<open>S = H P_pred H\<^sup>T + R\<close>.\<close>

definition kalmanGain :: "jsnum list list \<Rightarrow> jsnum list list" where
  "kalmanGain P_pred =
     (let HP = multiplyMatrices H_mat P_pred;
          HT = transposeMatrix H_mat;
          HPHT = multiplyMatrices HP HT;
          S = addMatrices HPHT R_mat;
          S_inv = invertMatrix S;
          PHT = multiplyMatrices P_pred HT
      in multiplyMatrices PHT S_inv)"

text \<open>The new estimate \<open>x_pred + K y\<close>, before its angles are wrapped.\<close>

definition kalmanCorrect :: "jsnum list \<Rightarrow> jsnum list list \<Rightarrow> jsnum list \<Rightarrow> jsnum list" where
  "kalmanCorrect x_pred K y =
     (let Ky = multiplyMatrixVector K y
      in map (\<lambda>idx. nth_num x_pred idx + nth_num Ky idx) [0..<length x_pred])"

text \<open>The new covariance \<open>(I - K H) P_pred\<close>.\<close>

definition kalmanCorrectCovariance ::
  "jsnum list list \<Rightarrow> jsnum list list \<Rightarrow> jsnum list list" where
  "kalmanCorrectCovariance K P_pred =
     (let KH = multiplyMatrices K H_mat;
          I_KH = subtractMatrices identity6 KH
      in multiplyMatrices I_KH P_pred)"

text \<open>The turn as a whole; its last step wraps the three angles.\<close>

definition kalmanStep ::
  "SensorDataPoint \<Rightarrow> kalmanState \<Rightarrow> SensorDataPoint \<Rightarrow> kalmanState option" where
  "kalmanStep prevPoint st point =
     (case st of (x, P, F0) \<Rightarrow>
        let dt = calculateDt point (Some prevPoint);
            limitedDt = Math_min dt (Fin 0.5);
            F = kalmanTransition F0 limitedDt;
            x_pred = multiplyMatrixVector F x;
            P_pred = kalmanPredictCovariance F P;
            z = kalmanMeasurement point x_pred limitedDt;
            y = kalmanInnovation z x_pred;
            K = kalmanGain P_pred;
            x1 = kalmanCorrect x_pred K y;
            P1 = kalmanCorrectCovariance K P_pred
        in do { a0 \<leftarrow> wrap180 (nth_num x1 0);
                a1 \<leftarrow> wrap180 (nth_num x1 1);
                a2 \<leftarrow> wrap180 (nth_num x1 2);
                Some (x1[0 := a0, 1 := a1, 2 := a2], P1, F) })"

definition kalmanAngles :: "jsnum list \<Rightarrow> jsnum \<times> jsnum \<times> jsnum" where
  "kalmanAngles x = (nth_num x 0, nth_num x 1, nth_num x 2)"

text \<open>The loop of the filter, which starts at the second sample.\<close>

fun kalmanLoop ::
  "SensorDataPoint \<Rightarrow> kalmanState \<Rightarrow> SensorDataPoint list \<Rightarrow> SensorDataPoint list option" where
  "kalmanLoop prevPoint st [] = Some []"
| "kalmanLoop prevPoint st (point # rest) =
     do { st1 \<leftarrow> kalmanStep prevPoint st point;
          let point1 = setAngles (kalmanAngles (fst st1)) point;
          out \<leftarrow> kalmanLoop point1 st1 rest;
          Some (point1 # out) }"

definition kalmanInit :: "SensorDataPoint \<Rightarrow> kalmanState" where
  "kalmanInit firstPoint =
     ([accelRollOf (accelX firstPoint) (accelY firstPoint) (accelZ firstPoint),
       accelPitchOf (accelX firstPoint) (accelY firstPoint) (accelZ firstPoint),
       Fin 0, gyroX firstPoint, gyroY firstPoint, gyroZ firstPoint],
      P_init, identity6)"

definition applyKalmanFilter :: "SensorDataPoint list \<Rightarrow> SensorDataPoint list option" where
  "applyKalmanFilter data =
     (case data of
        [] \<Rightarrow> Some []
      | firstPoint # rest \<Rightarrow>
          let st0 = kalmanInit firstPoint;
              point0 = setAngles (kalmanAngles (fst st0)) firstPoint
          in do { out \<leftarrow> kalmanLoop point0 st0 rest;
                  Some (point0 # out) })"

section \<open>The Madgwick filter\<close>

definition degToRad :: "jsnum \<Rightarrow> jsnum" where
  "degToRad degrees = degrees * (Math_PI / Fin 180)"

type_synonym quaternion = "jsnum \<times> jsnum \<times> jsnum \<times> jsnum"

text \<open>
  One turn of the loop of \<^verbatim>\<open>applyMadgwickFilter\<close> is written in the source as
  one block; it is cut here at its own comments. First the accelerometer reading is
  divided by its norm, with no test of the norm.
\<close>

definition normalizeAccel :: "SensorDataPoint \<Rightarrow> jsnum \<times> jsnum \<times> jsnum" where
  "normalizeAccel point =
     (let ax = accelX point;
          ay = accelY point;
          az = accelZ point;
          norm = Math_sqrt (ax * ax + ay * ay + az * az)
      in (ax / norm, ay / norm, az / norm))"

text \<open>\<^verbatim>\<open>Passo 1\<close>: the gradient \<open>(s0, s1, s2, s3)\<close> of the objective function.\<close>

definition madgwickGradient :: "quaternion \<Rightarrow> jsnum \<times> jsnum \<times> jsnum \<Rightarrow> quaternion" where
  "madgwickGradient q a =
     (case q of (q0, q1, q2, q3) \<Rightarrow> case a of (ax_norm, ay_norm, az_norm) \<Rightarrow>
        let t2q0 = Fin 2.0 * q0;
            t2q1 = Fin 2.0 * q1;
            t2q2 = Fin 2.0 * q2;
            t2q3 = Fin 2.0 * q3;
            t4q0 = Fin 4.0 * q0;
            t4q1 = Fin 4.0 * q1;
            t4q2 = Fin 4.0 * q2;
            t8q1 = Fin 8.0 * q1;
            t8q2 = Fin 8.0 * q2;
            q0q0 = q0 * q0;
            q1q1 = q1 * q1;
            q2q2 = q2 * q2;
            q3q3 = q3 * q3;
            s0 = t4q0 * q2q2 + t2q2 * ax_norm + t4q0 * q1q1 - t2q1 * ay_norm;
            s1 = t4q1 * q3q3 - t2q3 * ax_norm + Fin 4.0 * q0q0 * q1 - t2q0 * ay_norm - t4q1
                 + t8q1 * q1q1 + t8q1 * q2q2 + t4q1 * az_norm;
            s2 = Fin 4.0 * q0q0 * q2 + t2q0 * ax_norm + t4q2 * q3q3 - t2q3 * ay_norm - t4q2
                 + t8q2 * q1q1 + t8q2 * q2q2 + t4q2 * az_norm;
            s3 = Fin 4.0 * q1q1 * q3 - t2q1 * ax_norm + Fin 4.0 * q2q2 * q3 - t2q2 * ay_norm
        in (s0, s1, s2, s3))"

text \<open>
  The normalisation the block performs twice, on the gradient and on the integrated
  quaternion: every component times \<^verbatim>\<open>1.0 / Math.sqrt(...)\<close>, with no test of the
  square root.
\<close>

definition timesRecipNorm :: "quaternion \<Rightarrow> quaternion" where
  "timesRecipNorm v =
     (case v of (v0, v1, v2, v3) \<Rightarrow>
        let recipNorm = Fin 1.0 / Math_sqrt (v0 * v0 + v1 * v1 + v2 * v2 + v3 * v3)
        in (v0 * recipNorm, v1 * recipNorm, v2 * recipNorm, v3 * recipNorm))"

text \<open>\<^verbatim>\<open>Passo 2\<close>: the derivative of the quaternion.\<close>

definition madgwickQDot ::
  "jsnum \<Rightarrow> quaternion \<Rightarrow> jsnum \<times> jsnum \<times> jsnum \<Rightarrow> quaternion \<Rightarrow> quaternion" where
  "madgwickQDot beta q g sn =
     (case q of (q0, q1, q2, q3) \<Rightarrow> case g of (gx, gy, gz) \<Rightarrow>
      case sn of (s0_norm, s1_norm, s2_norm, s3_norm) \<Rightarrow>
        (Fin 0.5 * (- q1 * gx - q2 * gy - q3 * gz) - beta * s0_norm,
         Fin 0.5 * (q0 * gx + q2 * gz - q3 * gy) - beta * s1_norm,
         Fin 0.5 * (q0 * gy - q1 * gz + q3 * gx) - beta * s2_norm,
         Fin 0.5 * (q0 * gz + q1 * gy - q2 * gx) - beta * s3_norm))"

text \<open>\<^verbatim>\<open>Passo 3\<close>: the integration over \<^verbatim>\<open>limitedDt\<close>.\<close>

definition madgwickIntegrate :: "quaternion \<Rightarrow> quaternion \<Rightarrow> jsnum \<Rightarrow> quaternion" where
  "madgwickIntegrate q qDot limitedDt =
     (case q of (q0, q1, q2, q3) \<Rightarrow> case qDot of (qDot0, qDot1, qDot2, qDot3) \<Rightarrow>
        (q0 + qDot0 * limitedDt, q1 + qDot1 * limitedDt,
         q2 + qDot2 * limitedDt, q3 + qDot3 * limitedDt))"

text \<open>The quaternion after the turn.\<close>

definition madgwickUpdate ::
  "jsnum \<Rightarrow> SensorDataPoint option \<Rightarrow> quaternion \<Rightarrow> SensorDataPoint \<Rightarrow> quaternion" where
  "madgwickUpdate beta prevPoint q point =
     (let dt = calculateDt point prevPoint;
          limitedDt = Math_min dt (Fin 0.5);
          g = (degToRad (gyroX point), degToRad (gyroY point), degToRad (gyroZ point));
          s = madgwickGradient q (normalizeAccel point);
          qDot = madgwickQDot beta q g (timesRecipNorm s)
      in timesRecipNorm (madgwickIntegrate q qDot limitedDt))"

text \<open>The conversion of the quaternion to roll, pitch and yaw, before the yaw is wrapped.\<close>

definition quaternionToEuler :: "quaternion \<Rightarrow> jsnum \<times> jsnum \<times> jsnum" where
  "quaternionToEuler q =
     (case q of (q0, q1, q2, q3) \<Rightarrow>
        let sinr_cosp = Fin 2.0 * (q0 * q1 + q2 * q3);
            cosr_cosp = Fin 1.0 - Fin 2.0 * (q1 * q1 + q2 * q2);
            roll1 = Math_atan2 sinr_cosp cosr_cosp * (Fin 180.0 / Math_PI);
            sinp = Fin 2.0 * (q0 * q2 - q3 * q1);
            pitch1 = (if js_ge (Math_abs sinp) (Fin 1) then Math_sign sinp * Fin 90.0
                      else Math_asin sinp * (Fin 180.0 / Math_PI));
            siny_cosp = Fin 2.0 * (q0 * q3 + q1 * q2);
            cosy_cosp = Fin 1.0 - Fin 2.0 * (q2 * q2 + q3 * q3);
            yaw1 = Math_atan2 siny_cosp cosy_cosp * (Fin 180.0 / Math_PI)
        in (roll1, pitch1, yaw1))"

definition madgwickStep ::
  "jsnum \<Rightarrow> SensorDataPoint option \<Rightarrow> quaternion \<Rightarrow> SensorDataPoint
     \<Rightarrow> (quaternion \<times> (jsnum \<times> jsnum \<times> jsnum)) option" where
  "madgwickStep beta prevPoint q point =
     (let q1 = madgwickUpdate beta prevPoint q point
      in case quaternionToEuler q1 of (roll1, pitch1, yaw1) \<Rightarrow>
           do { yaw2 \<leftarrow> wrap180 yaw1;
                Some (q1, (roll1, pitch1, yaw2)) })"

fun madgwickLoop ::
  "jsnum \<Rightarrow> SensorDataPoint option \<Rightarrow> quaternion \<Rightarrow> SensorDataPoint list
     \<Rightarrow> SensorDataPoint list option" where
  "madgwickLoop beta prevPoint q [] = Some []"
| "madgwickLoop beta prevPoint q (point # rest) =
     do { (q1, angles) \<leftarrow> madgwickStep beta prevPoint q point;
          let point1 = setAngles angles point;
          out \<leftarrow> madgwickLoop beta (Some point1) q1 rest;
          Some (point1 # out) }"

definition applyMadgwickFilter ::
  "SensorDataPoint list \<Rightarrow> jsnum \<Rightarrow> SensorDataPoint list option" where
  "applyMadgwickFilter data beta =
     (case data of
        [] \<Rightarrow> Some []
      | _ # _ \<Rightarrow> madgwickLoop beta None (Fin 1, Fin 0, Fin 0, Fin 0) data)"


section \<open>The filters on the objects they are given\<close>

text \<open>
  Each filter starts with \<^verbatim>\<open>const result = [...data]\<close>, which copies the array and
  not the objects in it, and then assigns \<^verbatim>\<open>result[i].roll\<close> and the like. The
  store maps an address to the object there; an array is a list of addresses.
\<close>

type_synonym store = "nat \<Rightarrow> SensorDataPoint"

fun compLoopStore ::
  "jsnum \<Rightarrow> nat option \<Rightarrow> jsnum \<times> jsnum \<times> jsnum \<Rightarrow> nat list \<Rightarrow> store \<Rightarrow> store option" where
  "compLoopStore alpha prevRef st [] h = Some h"
| "compLoopStore alpha prevRef st (r # rest) h =
     do { st1 \<leftarrow> compStep alpha (map_option h prevRef) st (h r);
          compLoopStore alpha (Some r) st1 rest (h(r := setAngles st1 (h r))) }"

definition applyComplementaryFilterStore ::
  "nat list \<Rightarrow> jsnum \<Rightarrow> store \<Rightarrow> (nat list \<times> store) option" where
  "applyComplementaryFilterStore data alpha h =
     (case data of
        [] \<Rightarrow> Some ([], h)
      | r0 # _ \<Rightarrow>
          let result = data;
              firstPoint = h r0;
              roll0 = accelRollOf (accelX firstPoint) (accelY firstPoint) (accelZ firstPoint);
              pitch0 = accelPitchOf (accelX firstPoint) (accelY firstPoint) (accelZ firstPoint)
          in do { h1 \<leftarrow> compLoopStore alpha None (roll0, pitch0, Fin 0) result h;
                  Some (result, h1) })"

fun improvedLoopStore ::
  "jsnum \<Rightarrow> nat option \<Rightarrow> improvedState \<Rightarrow> nat list \<Rightarrow> store \<Rightarrow> store option" where
  "improvedLoopStore alpha prevRef st [] h = Some h"
| "improvedLoopStore alpha prevRef st (r # rest) h =
     do { (st1, c) \<leftarrow> improvedStep alpha (map_option h prevRef) st (h r);
          improvedLoopStore alpha (Some r) st1 rest
            (h(r := setCompAccel c (setAngles (fst st1) (h r)))) }"

definition applyImprovedComplementaryFilterStore ::
  "nat list \<Rightarrow> jsnum \<Rightarrow> store \<Rightarrow> (nat list \<times> store) option" where
  "applyImprovedComplementaryFilterStore data alpha h =
     (case data of
        [] \<Rightarrow> Some ([], h)
      | r0 # _ \<Rightarrow>
          let result = data;
              firstPoint = h r0
          in case compensateAcceleration (accelX firstPoint) (accelY firstPoint) (accelZ firstPoint)
                    (Fin 0) (Fin 0) (Fin 0) (Fin 0) (Fin 0) (Fin 0) sensorPositionVector of
               (ix, iy, iz) \<Rightarrow>
                 do { h1 \<leftarrow> improvedLoopStore alpha None
                              ((accelRollOf ix iy iz, accelPitchOf ix iy iz, Fin 0),
                               (gyroX firstPoint, gyroY firstPoint, gyroZ firstPoint))
                              result h;
                      Some (result, h1) })"

section \<open>Reading a file: \<^verbatim>\<open>processData\<close>\<close>

subsection \<open>Strings\<close>

text \<open>
  \<^verbatim>\<open>String.prototype.split\<close> with a one-character separator,
  \<^verbatim>\<open>trim\<close> and \<^verbatim>\<open>replace\<close> with a string pattern (which replaces the first
  occurrence only). Characters are the ASCII ones.
\<close>

fun split :: "char \<Rightarrow> string \<Rightarrow> string list" where
  "split sep [] = [[]]"
| "split sep (c # cs) =
     (if c = sep then [] # split sep cs
      else (case split sep cs of w # ws \<Rightarrow> (c # w) # ws | [] \<Rightarrow> [[c]]))"

definition isWhiteSpace :: "char \<Rightarrow> bool" where
  "isWhiteSpace c = (c \<in> set [CHR 0x09, CHR 0x0A, CHR 0x0B, CHR 0x0C, CHR 0x0D, CHR '' ''])"

definition trimStart :: "string \<Rightarrow> string" where
  "trimStart s = dropWhile isWhiteSpace s"

definition trim :: "string \<Rightarrow> string" where
  "trim s = rev (dropWhile isWhiteSpace (rev (dropWhile isWhiteSpace s)))"

fun replaceFirst :: "char \<Rightarrow> char \<Rightarrow> string \<Rightarrow> string" where
  "replaceFirst a b [] = []"
| "replaceFirst a b (c # cs) = (if c = a then b # cs else c # replaceFirst a b cs)"

subsection \<open>\<^verbatim>\<open>parseInt\<close> and \<^verbatim>\<open>parseFloat\<close>\<close>

text \<open>
  Both are built into the language and are written here after ECMA-262: leading white
  space is skipped, the longest prefix that is a number is read, what follows it is
  ignored, and the result is NaN when there is no such prefix.
\<close>

definition isDigit :: "char \<Rightarrow> bool" where
  "isDigit c = (48 \<le> (of_char c :: nat) \<and> (of_char c :: nat) \<le> 57)"

definition digitValue :: "char \<Rightarrow> nat" where
  "digitValue c = (of_char c :: nat) - 48"

definition digitsValue :: "string \<Rightarrow> nat" where
  "digitsValue ds = foldl (\<lambda>acc c. 10 * acc + digitValue c) 0 ds"

definition isHexDigit :: "char \<Rightarrow> bool" where
  "isHexDigit c =
     (isDigit c \<or> (65 \<le> (of_char c :: nat) \<and> (of_char c :: nat) \<le> 70)
               \<or> (97 \<le> (of_char c :: nat) \<and> (of_char c :: nat) \<le> 102))"

definition hexDigitValue :: "char \<Rightarrow> nat" where
  "hexDigitValue c =
     (if isDigit c then digitValue c
      else if (of_char c :: nat) \<le> 70 then (of_char c :: nat) - 55
      else (of_char c :: nat) - 87)"

definition hexValue :: "string \<Rightarrow> nat" where
  "hexValue ds = foldl (\<lambda>acc c. 16 * acc + hexDigitValue c) 0 ds"

text \<open>The sign in front of a number: whether it is negative, and the rest of the string.\<close>

definition takeSign :: "string \<Rightarrow> bool \<times> string" where
  "takeSign s =
     (case s of
        c # cs \<Rightarrow> (if c = CHR ''-'' then (True, cs) else if c = CHR ''+'' then (False, cs) else (False, s))
      | [] \<Rightarrow> (False, s))"

definition parseInt :: "string \<Rightarrow> jsnum" where
  "parseInt s =
     (case takeSign (trimStart s) of (neg, u) \<Rightarrow>
        let hex = (take 2 u = ''0x'' \<or> take 2 u = ''0X'');
            body = (if hex then drop 2 u else u);
            ds = (if hex then takeWhile isHexDigit body else takeWhile isDigit body)
        in if ds = [] then NaN
           else let n = real (if hex then hexValue ds else digitsValue ds)
                in Fin (if neg then - n else n))"

text \<open>The exponent part of a decimal literal, if there is one with at least one digit.\<close>

definition exponentPart :: "string \<Rightarrow> (bool \<times> nat) option" where
  "exponentPart s =
     (case s of
        c # cs \<Rightarrow>
          (if c = CHR ''e'' \<or> c = CHR ''E'' then
             (case takeSign cs of (neg, u) \<Rightarrow>
                if takeWhile isDigit u = [] then None
                else Some (neg, digitsValue (takeWhile isDigit u)))
           else None)
      | [] \<Rightarrow> None)"

definition parseFloat :: "string \<Rightarrow> jsnum" where
  "parseFloat s =
     (case takeSign (trimStart s) of (neg, u) \<Rightarrow>
        if take 8 u = ''Infinity'' then (if neg then NInf else PInf)
        else
          let ip = takeWhile isDigit u;
              r1 = dropWhile isDigit u;
              hasPoint = (r1 \<noteq> [] \<and> hd r1 = CHR ''.'');
              fp = (if hasPoint then takeWhile isDigit (tl r1) else []);
              r2 = (if hasPoint then dropWhile isDigit (tl r1) else r1)
          in if ip = [] \<and> fp = [] then NaN
             else
               let mant = real (digitsValue ip) + real (digitsValue fp) / 10 ^ length fp;
                   v = (case exponentPart r2 of
                          None \<Rightarrow> mant
                        | Some (eneg, e) \<Rightarrow> (if eneg then mant / 10 ^ e else mant * 10 ^ e))
               in Fin (if neg then - v else v))"

subsection \<open>The rows\<close>

text \<open>
  The only exception the function can raise: a property read or a method call on
  \<^verbatim>\<open>undefined\<close>.
\<close>

datatype error = TypeError

text \<open>
  A parsed row is the object \<^verbatim>\<open>rowData\<close>, keyed by the header names. A property
  that was never assigned reads as \<^verbatim>\<open>undefined\<close>, and as NaN in arithmetic.
\<close>

type_synonym rowData = "string \<rightharpoonup> jsnum"

definition numberOf :: "rowData \<Rightarrow> string \<Rightarrow> jsnum" where
  "numberOf row key = (case row key of Some v \<Rightarrow> v | None \<Rightarrow> NaN)"

text \<open>
  \<^verbatim>\<open>headers.forEach((header, index) => ...)\<close> on one row: the first column through
  \<^verbatim>\<open>parseInt\<close>, the others through \<^verbatim>\<open>parseFloat\<close> after the comma is replaced;
  \<^verbatim>\<open>values[index].replace\<close> throws when the row has no such field.
\<close>

fun fillRow :: "string list \<Rightarrow> nat \<Rightarrow> string list \<Rightarrow> rowData \<Rightarrow> error + rowData" where
  "fillRow [] index values row = Inr row"
| "fillRow (header # hs) index values row =
     (if index = 0 then
        fillRow hs (Suc index) values
          (row(header \<mapsto> (case values of v # _ \<Rightarrow> parseInt v | [] \<Rightarrow> NaN)))
      else if index < length values then
        fillRow hs (Suc index) values
          (row(header \<mapsto> parseFloat (replaceFirst (CHR '','') (CHR ''.'') (values ! index))))
      else Inl TypeError)"

definition parseRow :: "string list \<Rightarrow> string \<Rightarrow> error + rowData" where
  "parseRow headers row = fillRow headers 0 (split (CHR 0x09) row) Map.empty"

fun parseRows :: "string list \<Rightarrow> string list \<Rightarrow> error + rowData list" where
  "parseRows headers [] = Inr []"
| "parseRows headers (row # rows) =
     (case parseRow headers row of
        Inl e \<Rightarrow> Inl e
      | Inr d \<Rightarrow> (case parseRows headers rows of Inl e \<Rightarrow> Inl e | Inr ds \<Rightarrow> Inr (d # ds)))"

definition nonBlankRows :: "string \<Rightarrow> string list" where
  "nonBlankRows fileContent = filter (\<lambda>row. length (trim row) > 0) (split (CHR 0x0A) fileContent)"

definition headersOf :: "string \<Rightarrow> string list" where
  "headersOf row = map trim (split (CHR 0x09) row)"

text \<open>
  The first half of \<^verbatim>\<open>processData\<close>: the rows parsed, and the relative time
  computed from the first timestamp.
\<close>

definition parsedData :: "string \<Rightarrow> error + rowData list" where
  "parsedData fileContent =
     (case nonBlankRows fileContent of
        [] \<Rightarrow> Inl TypeError
      | headerRow # dataRows \<Rightarrow>
          (case parseRows (headersOf headerRow) dataRows of
             Inl e \<Rightarrow> Inl e
           | Inr [] \<Rightarrow> Inl TypeError
           | Inr (d0 # ds) \<Rightarrow>
               let startTime = numberOf d0 ''timestamp''
               in Inr (map (\<lambda>row. row(''relativeTime'' \<mapsto>
                                       (numberOf row ''timestamp'' - startTime) / Fin 1000))
                         (d0 # ds))))"

text \<open>The average of \<^verbatim>\<open>accelZ\<close> over the first \<^verbatim>\<open>Math.min(20, parsedData.length)\<close> rows.\<close>

definition avgAccelZ :: "rowData list \<Rightarrow> jsnum" where
  "avgAccelZ rows =
     (let samplesToCheck = min 20 (length rows)
      in foldl (\<lambda>acc i. acc + numberOf (rows ! i) ''accelZ'') (Fin 0) [0..<samplesToCheck]
           / Fin (real samplesToCheck))"

definition needsZInversion :: "rowData list \<Rightarrow> bool" where
  "needsZInversion rows = js_gt (avgAccelZ rows) (Fin 0)"

definition invertZ :: "rowData \<Rightarrow> rowData" where
  "invertZ point = point(''accelZ'' \<mapsto> - numberOf point ''accelZ'')"

text \<open>
  \<^verbatim>\<open>processData\<close>, up to the value it hands to \<^verbatim>\<open>setData\<close> and to the selected
  filter. An exception leaves the component's state as it was.
\<close>

definition processData :: "string \<Rightarrow> error + rowData list" where
  "processData fileContent =
     (case parsedData fileContent of
        Inl e \<Rightarrow> Inl e
      | Inr rows \<Rightarrow> Inr (if needsZInversion rows then map invertZ rows else rows))"

fun kalmanLoopStore :: "nat \<Rightarrow> kalmanState \<Rightarrow> nat list \<Rightarrow> store \<Rightarrow> store option" where
  "kalmanLoopStore prevRef st [] h = Some h"
| "kalmanLoopStore prevRef st (r # rest) h =
     do { st1 \<leftarrow> kalmanStep (h prevRef) st (h r);
          kalmanLoopStore r st1 rest (h(r := setAngles (kalmanAngles (fst st1)) (h r))) }"

definition applyKalmanFilterStore :: "nat list \<Rightarrow> store \<Rightarrow> (nat list \<times> store) option" where
  "applyKalmanFilterStore data h =
     (case data of
        [] \<Rightarrow> Some ([], h)
      | r0 # rest \<Rightarrow>
          let result = data;
              firstPoint = h r0;
              st0 = kalmanInit firstPoint;
              h0 = h(r0 := setAngles (kalmanAngles (fst st0)) firstPoint)
          in do { h1 \<leftarrow> kalmanLoopStore r0 st0 rest h0;
                  Some (result, h1) })"

fun madgwickLoopStore ::
  "jsnum \<Rightarrow> nat option \<Rightarrow> quaternion \<Rightarrow> nat list \<Rightarrow> store \<Rightarrow> store option" where
  "madgwickLoopStore beta prevRef q [] h = Some h"
| "madgwickLoopStore beta prevRef q (r # rest) h =
     do { (q1, angles) \<leftarrow> madgwickStep beta (map_option h prevRef) q (h r);
          madgwickLoopStore beta (Some r) q1 rest (h(r := setAngles angles (h r))) }"

definition applyMadgwickFilterStore ::
  "nat list \<Rightarrow> jsnum \<Rightarrow> store \<Rightarrow> (nat list \<times> store) option" where
  "applyMadgwickFilterStore data beta h =
     (case data of
        [] \<Rightarrow> Some ([], h)
      | _ # _ \<Rightarrow>
          let result = data
          in do { h1 \<leftarrow> madgwickLoopStore beta None (Fin 1, Fin 0, Fin 0, Fin 0) result h;
                  Some (result, h1) })"

section \<open>Inputs and predicates of the properties\<close>

text \<open>
  A sample at rest at the time \<open>t\<close> (in seconds): gravity along \<open>-z\<close>, no rotation,
  no fused field yet.
\<close>

definition restPoint :: "real \<Rightarrow> SensorDataPoint" where
  "restPoint t =
     \<lparr> timestamp = Fin (1000 * t), relativeTime = Some (Fin t),
       accelX = Fin 0, accelY = Fin 0, accelZ = Fin (- 1),
       gyroX = Fin 0, gyroY = Fin 0, gyroZ = Fin 0, altitude = Fin 0,
       roll = None, pitch = None, yaw = None,
       compAccelX = None, compAccelY = None, compAccelZ = None \<rparr>"


text \<open>Two samples of a body that spins at 1000 degrees per second about x and 2000 about z.\<close>

definition spinData :: "SensorDataPoint list" where
  "spinData = [(restPoint 0)\<lparr>gyroX := Fin 1000, gyroZ := Fin 2000\<rparr>,
               (restPoint 0.1)\<lparr>gyroX := Fin 1000, gyroZ := Fin 2000\<rparr>]"

text \<open>\<^verbatim>\<open>-180 <= v && v <= 180\<close> on a fused field.\<close>

definition inRange180 :: "jsnum option \<Rightarrow> bool" where
  "inRange180 v = (case v of None \<Rightarrow> False | Some a \<Rightarrow> js_ge a (Fin (- 180)) \<and> js_ge (Fin 180) a)"

text \<open>Samples whose times, and whose readings, are finite numbers.\<close>

definition finiteTime :: "SensorDataPoint \<Rightarrow> bool" where
  "finiteTime p =
     (isFinite (timestamp p) \<and> (case relativeTime p of None \<Rightarrow> True | Some t \<Rightarrow> isFinite t))"


text \<open>A sample at rest at any finite time.\<close>

definition atRest :: "SensorDataPoint \<Rightarrow> bool" where
  "atRest p =
     (accelX p = Fin 0 \<and> accelY p = Fin 0 \<and> accelZ p = Fin (- 1) \<and>
      gyroX p = Fin 0 \<and> gyroY p = Fin 0 \<and> gyroZ p = Fin 0 \<and> finiteTime p)"



text \<open>No two consecutive samples with a \<^verbatim>\<open>dt\<close> of 0 between them.\<close>

fun noZeroDt :: "SensorDataPoint list \<Rightarrow> bool" where
  "noZeroDt (p # q # rest) = (calculateDt q (Some p) \<noteq> Fin 0 \<and> noZeroDt (q # rest))"
| "noZeroDt ps = True"

text \<open>The state of the improved complementary filter on samples at rest.\<close>

definition restState :: improvedState where
  "restState = ((Fin 180, Fin 0, Fin 0), (Fin 0, Fin 0, Fin 0))"

text \<open>
  The transition matrix of the Kalman filter once \<^verbatim>\<open>limitedDt\<close> is written into it,
  the estimate of the filter on samples at rest, and the vectors of six zeros and of six
  NaN.
\<close>

definition transitionMatrix :: "jsnum \<Rightarrow> jsnum list list" where
  "transitionMatrix l =
     [[Fin 1, Fin 0, Fin 0, l, Fin 0, Fin 0],
      [Fin 0, Fin 1, Fin 0, Fin 0, l, Fin 0],
      [Fin 0, Fin 0, Fin 1, Fin 0, Fin 0, l],
      [Fin 0, Fin 0, Fin 0, Fin 1, Fin 0, Fin 0],
      [Fin 0, Fin 0, Fin 0, Fin 0, Fin 1, Fin 0],
      [Fin 0, Fin 0, Fin 0, Fin 0, Fin 0, Fin 1]]"

definition restEstimate :: "jsnum list" where
  "restEstimate = [Fin 180, Fin 0, Fin 0, Fin 0, Fin 0, Fin 0]"

definition zeros6 :: "jsnum list" where
  "zeros6 = [Fin 0, Fin 0, Fin 0, Fin 0, Fin 0, Fin 0]"

definition nan6 :: "jsnum list" where
  "nan6 = [NaN, NaN, NaN, NaN, NaN, NaN]"

text \<open>An estimate that is, component by component, the one at rest or NaN.\<close>

definition restOrNaN :: "jsnum list \<Rightarrow> bool" where
  "restOrNaN x = list_all2 (\<lambda>v c. v = c \<or> v = NaN) x restEstimate"

text \<open>A fused sample whose roll is 180 or NaN, and whose pitch and yaw are 0 or NaN.\<close>

definition restOrNaNAngles :: "SensorDataPoint \<Rightarrow> bool" where
  "restOrNaNAngles p =
     ((roll p = Some (Fin 180) \<or> roll p = Some NaN)
      \<and> (pitch p = Some (Fin 0) \<or> pitch p = Some NaN)
      \<and> (yaw p = Some (Fin 0) \<or> yaw p = Some NaN))"




text \<open>A sample of a spinning body, a sample with no acceleration at all, and one lying on its side.\<close>

definition spinPoint :: SensorDataPoint where
  "spinPoint = (restPoint 0.1)\<lparr>gyroX := Fin 1000, gyroZ := Fin 2000\<rparr>"

definition zeroAccelPoint :: SensorDataPoint where
  "zeroAccelPoint = (restPoint 0)\<lparr>accelZ := Fin 0\<rparr>"




text \<open>
  Three small files: one well formed, whose \<^verbatim>\<open>accelZ\<close> is positive on average, one
  whose last row lacks a field, and one with a field that is not a number; and the rows
  that \<open>parsedData\<close> makes of the first.
\<close>

definition tab :: string where
  "tab = [CHR 0x09]"

definition newline :: string where
  "newline = [CHR 0x0A]"

definition goodFile :: string where
  "goodFile = ''timestamp'' @ tab @ ''accelZ'' @ newline @ ''1000'' @ tab @ ''1'' @ newline
                @ ''1100'' @ tab @ ''0,5'' @ newline"

definition shortRowFile :: string where
  "shortRowFile = ''timestamp'' @ tab @ ''accelZ'' @ newline @ ''1000'' @ tab @ ''1'' @ newline
                @ ''1100'' @ newline"

definition badNumberFile :: string where
  "badNumberFile = ''timestamp'' @ tab @ ''accelZ'' @ newline @ ''1000'' @ tab @ ''abc'' @ newline"


text \<open>
  A sample whose \<^verbatim>\<open>gyroZ\<close> is Infinity (what \<^verbatim>\<open>parseFloat\<close> makes of the field
  \<^verbatim>\<open>Infinity\<close>), a tenth of a second after the first.
\<close>

definition runawayPoint :: SensorDataPoint where
  "runawayPoint = (restPoint 0.1)\<lparr>gyroZ := PInf\<rparr>"

text \<open>
  A store with two samples of a body that turns about z, at the addresses 7 and 8, the
  second a quarter of a second after the first.
\<close>

definition turningStore :: store where
  "turningStore a =
     (if a = 7 then (restPoint 0)\<lparr>gyroZ := Fin 100\<rparr> else (restPoint 0.25)\<lparr>gyroZ := Fin 150\<rparr>)"

text \<open>The store after the objects \<open>out\<close> are written at the addresses \<open>refs\<close>, in turn.\<close>

definition writeAll :: "nat list \<Rightarrow> SensorDataPoint list \<Rightarrow> store \<Rightarrow> store" where
  "writeAll refs out h = fold (\<lambda>(r, p) h. h(r := p)) (zip refs out) h"

section \<open>Properties\<close>

subsection \<open>Arithmetic on the exceptional values\<close>

lemma NaN_plus [simp]: "NaN + a = NaN" "a + NaN = NaN"
  by (cases a; simp)+

lemma NaN_times [simp]: "NaN * a = NaN" "a * NaN = NaN"
  by (cases a; simp)+

lemma NaN_minus [simp]: "NaN - a = NaN" "a - NaN = NaN"
  by (simp_all add: minus_jsnum_def)

lemma NaN_divide [simp]: "NaN / a = NaN" "a / NaN = NaN"
  by (cases a; simp)+

lemma Fin_minus [simp]: "Fin a - Fin b = Fin (a - b)"
  by (simp add: minus_jsnum_def)

lemma Math_min_NaN [simp]: "Math_min NaN a = NaN" "Math_min a NaN = NaN"
  by (cases a; simp)+

lemma Math_atan2_NaN [simp]: "Math_atan2 NaN a = NaN" "Math_atan2 a NaN = NaN"
  by (cases a; simp)+

lemma radToDeg_Fin [simp]: "Fin 180 / Math_PI = Fin (180 / pi)"
  by (simp add: Math_PI_def)

subsection \<open>The wrapping loops\<close>

lemma wrap_down_stop: "\<not> js_gt y (Fin 180) \<Longrightarrow> wrap_down y = Some y"
  by (subst wrap_down.simps) simp

lemma wrap_up_stop: "\<not> js_lt y (Fin (- 180)) \<Longrightarrow> wrap_up y = Some y"
  by (subst wrap_up.simps) simp

lemma wrap_down_unfold:
  "wrap_down (Fin r) = (if 180 < r then wrap_down (Fin (r - 360)) else Some (Fin r))"
  by (subst wrap_down.simps) simp

lemma wrap_up_unfold:
  "wrap_up (Fin r) = (if r < - 180 then wrap_up (Fin (r + 360)) else Some (Fin r))"
  by (subst wrap_up.simps) (simp add: js_lt_def)




lemma wrap180_id: "- 180 \<le> r \<Longrightarrow> r \<le> 180 \<Longrightarrow> wrap180 (Fin r) = Some (Fin r)"
  by (simp add: wrap180_def wrap_down_stop wrap_up_stop js_lt_def)

lemma wrap180_NaN: "wrap180 NaN = Some NaN"
  by (simp add: wrap180_def wrap_down_stop wrap_up_stop js_lt_def)

text \<open>On an infinite angle one of the two loops never ends.\<close>

lemma wrap_down_not_PInf: "wrap_down a = Some b \<Longrightarrow> a \<noteq> PInf"
proof (erule wrap_down.raw_induct[rotated 1, where P = "\<lambda>a b. a \<noteq> PInf"])
  fix f a b
  assume ih: "\<And>a b. f a = Some b \<Longrightarrow> a \<noteq> PInf"
    and eq: "(if js_gt a (Fin 180) then f (a - Fin 360) else Some a) = Some b"
  show "a \<noteq> PInf"
  proof
    assume "a = PInf"
    with eq have "f PInf = Some b" by (simp add: minus_jsnum_def)
    with ih show False by blast
  qed
qed


lemma wrap180_PInf: "wrap180 PInf = None"
  using wrap_down_not_PInf[of PInf] by (cases "wrap_down PInf") (auto simp: wrap180_def)



subsection \<open>The arctangent\<close>

lemma atan2r_zero_neg: "x < 0 \<Longrightarrow> atan2r 0 x = pi"
  by (simp add: atan2r_def)

lemma atan2r_zero_pos: "0 < x \<Longrightarrow> atan2r 0 x = 0"
  by (simp add: atan2r_def)

lemma accelRollOf_rest: "accelRollOf ax (Fin 0) (Fin (- 1)) = Fin 180"
  by (simp add: accelRollOf_def atan2r_zero_neg)

lemma accelPitchOf_rest: "accelPitchOf (Fin 0) (Fin 0) (Fin (- 1)) = Fin 0"
  by (simp add: accelPitchOf_def atan2r_zero_pos)

subsection \<open>Roll and pitch are not wrapped\<close>

lemmas eval_defs =
  restPoint_def setAngles_def setCompAccel_def calculateDt_def Let_def
  wrap180_def wrap_down_unfold wrap_up_unfold accelRollOf_def accelPitchOf_def
  atan2r_zero_neg atan2r_zero_pos

text \<open>
  C10. The complementary filters wrap the yaw only. On \<open>spinData\<close> the plain filter
  returns the roll 278 and the improved one the roll 274.4 at the second sample, both
  outside \<open>[-180, 180]\<close>, while the yaw, 200 before the loops, comes out as -160.
\<close>

theorem complementary_roll_not_wrapped:
  "map_option (map (\<lambda>p. (roll p, yaw p))) (applyComplementaryFilter spinData (Fin 0.98))
     = Some [(Some (Fin 180), Some (Fin 0)), (Some (Fin 278), Some (Fin (- 160)))]
   \<and> map_option (map (\<lambda>p. (roll p, yaw p))) (applyImprovedComplementaryFilter spinData (Fin 0.98))
     = Some [(Some (Fin 180), Some (Fin 0)), (Some (Fin 274.4), Some (Fin (- 160)))]
   \<and> \<not> inRange180 (Some (Fin 278)) \<and> \<not> inRange180 (Some (Fin 274.4))
   \<and> inRange180 (Some (Fin (- 160)))"
proof -
  have plain: "map_option (map (\<lambda>p. (roll p, yaw p))) (applyComplementaryFilter spinData (Fin 0.98))
     = Some [(Some (Fin 180), Some (Fin 0)), (Some (Fin 278), Some (Fin (- 160)))]"
    by (simp add: applyComplementaryFilter_def spinData_def compStep_def eval_defs)
  have improved: "map_option (map (\<lambda>p. (roll p, yaw p)))
       (applyImprovedComplementaryFilter spinData (Fin 0.98))
     = Some [(Some (Fin 180), Some (Fin 0)), (Some (Fin 274.4), Some (Fin (- 160)))]"
    by (simp add: applyImprovedComplementaryFilter_def spinData_def improvedStep_def
        compensateAcceleration_def sensorPositionVector_def distanceFromCM_def nth_num_def
        eval_defs)
  show ?thesis using plain improved by (simp add: inRange180_def)
qed

subsection \<open>Samples at rest: the complementary filter\<close>

lemma isFinite_iff: "isFinite a \<longleftrightarrow> (\<exists>r. a = Fin r)"
  by (cases a) auto

lemma calculateDt_isFinite:
  assumes "finiteTime p" "finiteTime prev"
  shows "isFinite (calculateDt p (Some prev))"
  using assms
  by (auto simp: finiteTime_def calculateDt_def split: option.splits elim!: isFinite.elims(2))

lemma calculateDt_finite:
  assumes "finiteTime p" "finiteTime prev"
  shows "\<exists>d. calculateDt p (Some prev) = Fin d"
  using calculateDt_isFinite[OF assms] by (simp add: isFinite_iff)

lemma calculateDt_setAngles [simp]:
  "calculateDt p (Some (setAngles st q)) = calculateDt p (Some q)"
  by (cases st) (simp add: calculateDt_def setAngles_def split: option.splits)

lemma calculateDt_setCompAccel [simp]:
  "calculateDt p (Some (setCompAccel c q)) = calculateDt p (Some q)"
  by (cases c) (simp add: calculateDt_def setCompAccel_def split: option.splits)

lemma finiteTime_setAngles [simp]: "finiteTime (setAngles st q) = finiteTime q"
  by (cases st) (simp add: finiteTime_def setAngles_def)

lemma finiteTime_setCompAccel [simp]: "finiteTime (setCompAccel st q) = finiteTime q"
  by (cases st) (simp add: finiteTime_def setCompAccel_def)


lemma compStep_first: "compStep alpha None st p = Some st"
  by (simp add: compStep_def split: prod.splits)




subsection \<open>The stages of the Madgwick update\<close>

lemma Fin_times_PInf_zero [simp]: "Fin 0 * PInf = NaN" "Fin 0 * NInf = NaN"
  by simp_all

lemma timesRecipNorm_NaN [simp]: "timesRecipNorm (NaN, NaN, NaN, NaN) = (NaN, NaN, NaN, NaN)"
  by (simp add: timesRecipNorm_def Let_def)

lemma timesRecipNorm_zero [simp]:
  "timesRecipNorm (Fin 0, Fin 0, Fin 0, Fin 0) = (NaN, NaN, NaN, NaN)"
  by (simp add: timesRecipNorm_def Let_def)




lemma madgwickGradient_NaN_q [simp]:
  "madgwickGradient (NaN, NaN, NaN, NaN) a = (NaN, NaN, NaN, NaN)"
  unfolding madgwickGradient_def Let_def by (cases a) simp

lemma madgwickGradient_NaN_a [simp]:
  "madgwickGradient q (NaN, NaN, NaN) = (NaN, NaN, NaN, NaN)"
  unfolding madgwickGradient_def Let_def by (cases q) simp



lemma madgwickQDot_NaN [simp]:
  "madgwickQDot beta q g (NaN, NaN, NaN, NaN) = (NaN, NaN, NaN, NaN)"
  by (cases q; cases g) (simp add: madgwickQDot_def)


lemma madgwickIntegrate_NaN [simp]:
  "madgwickIntegrate q (NaN, NaN, NaN, NaN) l = (NaN, NaN, NaN, NaN)"
  by (cases q) (simp add: madgwickIntegrate_def)



lemma normalizeAccel_zero:
  "accelX p = Fin 0 \<Longrightarrow> accelY p = Fin 0 \<Longrightarrow> accelZ p = Fin 0
     \<Longrightarrow> normalizeAccel p = (NaN, NaN, NaN)"
  by (simp add: normalizeAccel_def Let_def)

lemma quaternionToEuler_NaN [simp]: "quaternionToEuler (NaN, NaN, NaN, NaN) = (NaN, NaN, NaN)"
  by (simp add: quaternionToEuler_def Let_def)






lemma madgwickUpdate_NaN [simp]:
  "madgwickUpdate beta prev (NaN, NaN, NaN, NaN) p = (NaN, NaN, NaN, NaN)"
  by (simp add: madgwickUpdate_def Let_def)

lemma madgwickUpdate_zero_accel:
  "accelX p = Fin 0 \<Longrightarrow> accelY p = Fin 0 \<Longrightarrow> accelZ p = Fin 0
     \<Longrightarrow> madgwickUpdate beta prev q p = (NaN, NaN, NaN, NaN)"
  by (simp add: madgwickUpdate_def Let_def normalizeAccel_zero)


lemma degToRad_Fin [simp]: "degToRad (Fin g) = Fin (g * (pi / 180))"
  by (simp add: degToRad_def Math_PI_def)

lemma limitedDt_isFinite:
  assumes "finiteTime p" "case prev of None \<Rightarrow> True | Some q \<Rightarrow> finiteTime q"
  shows "isFinite (Math_min (calculateDt p prev) (Fin 0.5))"
proof (cases prev)
  case None
  then show ?thesis by (simp add: calculateDt_def)
next
  case (Some q)
  then obtain d where "calculateDt p prev = Fin d"
    using calculateDt_finite[of p q] assms by auto
  then show ?thesis by simp
qed

lemma limitedDt_Fin:
  assumes "finiteTime p" "case prev of None \<Rightarrow> True | Some q \<Rightarrow> finiteTime q"
  shows "\<exists>l. Math_min (calculateDt p prev) (Fin 0.5) = Fin l"
  using limitedDt_isFinite[OF assms] by (simp add: isFinite_iff)



subsection \<open>Bounds of the arctangent\<close>

lemma atan2r_bounds: "- pi < atan2r y x \<and> atan2r y x \<le> pi"
proof -
  have b: "- (pi / 2) < arctan (y / x)" "arctan (y / x) < pi / 2"
    by (rule arctan_lbound, rule arctan_ubound)
  have p: "0 < pi" by simp
  consider "0 < x" | "x < 0" "0 \<le> y" | "x < 0" "y < 0" | "x = 0" by linarith
  then show ?thesis
  proof cases
    case 1
    then show ?thesis using b p by (simp add: atan2r_def)
  next
    case 2
    then have "y / x \<le> 0" by (simp add: divide_nonneg_neg)
    then have "arctan (y / x) \<le> 0" by (simp add: arctan_le_zero_iff)
    then show ?thesis using 2 b p by (simp add: atan2r_def)
  next
    case 3
    then have "0 < y / x" by (simp add: divide_neg_neg)
    then have "0 < arctan (y / x)" by (simp add: zero_less_arctan_iff)
    then show ?thesis using 3 b p by (simp add: atan2r_def)
  next
    case 4
    have "- (pi / 2) \<le> pi" using pi_gt_zero by linarith
    with 4 show ?thesis by (auto simp: atan2r_def)
  qed
qed

lemma Math_atan2_range_case:
  "(case Math_atan2 a b of Fin r \<Rightarrow> - pi \<le> r \<and> r \<le> pi | NaN \<Rightarrow> True | _ \<Rightarrow> False)"
proof -
  have np: "- (pi / 2) \<le> pi" "- (pi / 4) \<le> pi" "- (3 * pi / 4) \<le> pi"
    using pi_gt_zero by linarith+
  show ?thesis
  proof (cases a; cases b)
    fix y x assume "a = Fin y" "b = Fin x"
    then show ?thesis using atan2r_bounds[of y x] by simp
  qed (use np in auto)
qed

lemma Math_atan2_range:
  "Math_atan2 a b = NaN \<or> (\<exists>r. Math_atan2 a b = Fin r \<and> - pi \<le> r \<and> r \<le> pi)"
  using Math_atan2_range_case[of a b] by (cases "Math_atan2 a b") auto

lemma toDegrees_range:
  assumes "- pi \<le> r" "r \<le> pi"
  shows "- 180 \<le> r * (180 / pi)" "r * (180 / pi) \<le> 180"
proof -
  have p: "0 < pi" by simp
  have "r * (180 / pi) = 180 * (r / pi)" by simp
  moreover have "- 1 \<le> r / pi" using assms p by (simp add: pos_le_divide_eq)
  moreover have "r / pi \<le> 1" using assms p by (simp add: pos_divide_le_eq)
  ultimately show "- 180 \<le> r * (180 / pi)" "r * (180 / pi) \<le> 180" by linarith+
qed

lemma atan2_degrees:
  "Math_atan2 a b * (Fin 180 / Math_PI) = NaN
   \<or> (\<exists>r. Math_atan2 a b * (Fin 180 / Math_PI) = Fin r \<and> - 180 \<le> r \<and> r \<le> 180)"
  using Math_atan2_range[of a b] toDegrees_range by auto

lemma wrap180_atan2_degrees:
  "wrap180 (Math_atan2 a b * (Fin 180 / Math_PI)) = Some (Math_atan2 a b * (Fin 180 / Math_PI))"
  using atan2_degrees[of a b] by (auto simp: wrap180_NaN wrap180_id)

subsection \<open>The Madgwick filter always returns\<close>

lemma madgwickStep_returns:
  "\<exists>r. madgwickStep beta prev q p = Some (madgwickUpdate beta prev q p, r)"
proof -
  obtain r1 p1 y1 where e: "quaternionToEuler (madgwickUpdate beta prev q p) = (r1, p1, y1)"
    by (cases "quaternionToEuler (madgwickUpdate beta prev q p)") auto
  obtain q0 q1 q2 q3 where q: "madgwickUpdate beta prev q p = (q0, q1, q2, q3)"
    by (cases "madgwickUpdate beta prev q p") auto
  have "y1 = Math_atan2 (Fin 2 * (q0 * q3 + q1 * q2)) (Fin 1 - Fin 2 * (q2 * q2 + q3 * q3)) * (Fin 180 / Math_PI)"
    using e q by (simp add: quaternionToEuler_def Let_def)
  then have "wrap180 y1 = Some y1" by (simp only: wrap180_atan2_degrees)
  then show ?thesis using e by (simp add: madgwickStep_def)
qed

lemma madgwickLoop_returns: "\<exists>out. madgwickLoop beta prev q data = Some out"
proof (induction data arbitrary: prev q)
  case Nil
  then show ?case by simp
next
  case (Cons p data)
  obtain r where r: "madgwickStep beta prev q p = Some (madgwickUpdate beta prev q p, r)"
    using madgwickStep_returns by blast
  obtain out where "madgwickLoop beta (Some (setAngles r p)) (madgwickUpdate beta prev q p) data = Some out"
    using Cons.IH by blast
  with r show ?case by simp
qed

lemma madgwickStep_NaN:
  "madgwickStep beta prev (NaN, NaN, NaN, NaN) p = Some ((NaN, NaN, NaN, NaN), (NaN, NaN, NaN))"
  by (simp add: madgwickStep_def wrap180_NaN)




subsection \<open>Prefixes\<close>

lemma compLoop_prefix:
  "compLoop alpha prev st (xs @ ys) = Some out \<Longrightarrow> compLoop alpha prev st xs = Some (take (length xs) out)"
proof (induction xs arbitrary: prev st out)
  case Nil
  then show ?case by simp
next
  case (Cons p xs)
  then show ?case by (auto simp: Let_def split: bind_splits)
qed

lemma improvedLoop_prefix:
  "improvedLoop alpha prev st (xs @ ys) = Some out \<Longrightarrow> improvedLoop alpha prev st xs = Some (take (length xs) out)"
proof (induction xs arbitrary: prev st out)
  case Nil
  then show ?case by simp
next
  case (Cons p xs)
  then show ?case by (auto simp: Let_def split: bind_splits)
qed

lemma kalmanLoop_prefix:
  "kalmanLoop prev st (xs @ ys) = Some out \<Longrightarrow> kalmanLoop prev st xs = Some (take (length xs) out)"
proof (induction xs arbitrary: prev st out)
  case Nil
  then show ?case by simp
next
  case (Cons p xs)
  then show ?case by (auto simp: Let_def split: bind_splits)
qed

lemma madgwickLoop_prefix:
  "madgwickLoop beta prev q (xs @ ys) = Some out \<Longrightarrow> madgwickLoop beta prev q xs = Some (take (length xs) out)"
proof (induction xs arbitrary: prev q out)
  case Nil
  then show ?case by simp
next
  case (Cons p xs)
  then show ?case by (auto simp: Let_def split: bind_splits)
qed

lemma applyComplementaryFilter_prefix:
  "applyComplementaryFilter (xs @ ys) alpha = Some out
     \<Longrightarrow> applyComplementaryFilter xs alpha = Some (take (length xs) out)"
  by (cases xs) (auto simp: applyComplementaryFilter_def Let_def dest: compLoop_prefix[of _ _ _ "_ # _", simplified])

subsection \<open>Samples at rest: the Kalman filter\<close>

lemma upt6: "[0..<6] = [0, 1, 2, 3, 4, 5]"
  by (simp add: upt_rec)

lemma identity6_transition: "identity6 = transitionMatrix (Fin 0)"
  by (simp add: identity6_def diagonal6_def transitionMatrix_def upt6)

lemma kalmanTransition_transition:
  "kalmanTransition (transitionMatrix l) l' = transitionMatrix l'"
  by (simp add: kalmanTransition_def setEntry_def rowOf_def transitionMatrix_def)

lemma multiplyMatrixVector_literal:
  "multiplyMatrixVector (transitionMatrix l) [a0, a1, a2, a3, a4, a5] =
     [Fin 0 + Fin 1 * a0 + Fin 0 * a1 + Fin 0 * a2 + l * a3 + Fin 0 * a4 + Fin 0 * a5,
      Fin 0 + Fin 0 * a0 + Fin 1 * a1 + Fin 0 * a2 + Fin 0 * a3 + l * a4 + Fin 0 * a5,
      Fin 0 + Fin 0 * a0 + Fin 0 * a1 + Fin 1 * a2 + Fin 0 * a3 + Fin 0 * a4 + l * a5,
      Fin 0 + Fin 0 * a0 + Fin 0 * a1 + Fin 0 * a2 + Fin 1 * a3 + Fin 0 * a4 + Fin 0 * a5,
      Fin 0 + Fin 0 * a0 + Fin 0 * a1 + Fin 0 * a2 + Fin 0 * a3 + Fin 1 * a4 + Fin 0 * a5,
      Fin 0 + Fin 0 * a0 + Fin 0 * a1 + Fin 0 * a2 + Fin 0 * a3 + Fin 0 * a4 + Fin 1 * a5]"
  by (simp add: multiplyMatrixVector_def transitionMatrix_def entry_def rowOf_def nth_num_def upt6)

lemma restOrNaN_cases:
  assumes "restOrNaN x"
  obtains "x = restEstimate"
  | a0 a1 a2 a3 a4 a5 where "x = [a0, a1, a2, a3, a4, a5]"
      "a0 = NaN \<or> a1 = NaN \<or> a2 = NaN \<or> a3 = NaN \<or> a4 = NaN \<or> a5 = NaN"
  using assms unfolding restOrNaN_def restEstimate_def
  by (auto simp: list_all2_Cons2)

lemma predict_rest:
  assumes "restOrNaN x"
  shows "multiplyMatrixVector (transitionMatrix (Fin d)) x = restEstimate
       \<or> multiplyMatrixVector (transitionMatrix (Fin d)) x = nan6"
  using assms
proof (cases rule: restOrNaN_cases)
  case 1
  then show ?thesis by (simp add: restEstimate_def multiplyMatrixVector_literal)
next
  case (2 a0 a1 a2 a3 a4 a5)
  then show ?thesis by (auto simp: multiplyMatrixVector_literal nan6_def)
qed


lemma limitedDt_rest:
  assumes "atRest p" "finiteTime prev"
  shows "\<exists>l. Math_min (calculateDt p (Some prev)) (Fin 0.5) = Fin l"
  using limitedDt_Fin[of p "Some prev"] assms by (simp add: atRest_def)

lemma kalmanMeasurement_rest:
  assumes "atRest p"
  shows "kalmanMeasurement p restEstimate (Fin l) = restEstimate"
    and "kalmanMeasurement p nan6 (Fin l) = [Fin 180, Fin 0, NaN, Fin 0, Fin 0, Fin 0]"
  using assms
  by (simp_all add: kalmanMeasurement_def atRest_def accelRollOf_rest accelPitchOf_rest
      restEstimate_def nan6_def nth_num_def)

lemma H_times:
  "multiplyMatrixVector H_mat restEstimate = restEstimate"
  "multiplyMatrixVector H_mat nan6 = nan6"
  by (simp_all add: H_mat_def identity6_transition multiplyMatrixVector_literal restEstimate_def nan6_def)

lemma kalmanInnovation_rest:
  "kalmanInnovation restEstimate restEstimate = zeros6"
  "kalmanInnovation [Fin 180, Fin 0, NaN, Fin 0, Fin 0, Fin 0] nan6 = nan6"
  by (simp_all add: kalmanInnovation_def H_times)
     (simp_all add: restEstimate_def nan6_def zeros6_def nth_num_def upt6)

lemma times_zero_cases: "k * Fin 0 = Fin 0 \<or> k * Fin 0 = NaN"
  by (cases k) auto

lemma foldl_zero_or_NaN:
  assumes "\<forall>j \<in> set js. g j = Fin 0 \<or> g j = NaN" "acc = Fin 0 \<or> acc = NaN"
  shows "foldl (\<lambda>acc j. acc + g j) acc js = Fin 0 \<or> foldl (\<lambda>acc j. acc + g j) acc js = NaN"
  using assms
proof (induction js arbitrary: acc)
  case Nil
  then show ?case by simp
next
  case (Cons j js)
  have "acc + g j = Fin 0 \<or> acc + g j = NaN" using Cons.prems by auto
  then show ?case using Cons by simp
qed

lemma gain_times_innovation:
  assumes "y = zeros6 \<or> y = nan6"
  shows "nth_num (multiplyMatrixVector K y) i = Fin 0 \<or> nth_num (multiplyMatrixVector K y) i = NaN"
proof (cases "i < length K")
  case False
  then show ?thesis by (simp add: nth_num_def multiplyMatrixVector_def)
next
  case True
  have terms: "\<forall>j \<in> set [0..<length y]. entry K i j * nth_num y j = Fin 0 \<or> entry K i j * nth_num y j = NaN"
  proof
    fix j assume "j \<in> set [0..<length y]"
    then have "nth_num y j = Fin 0 \<or> nth_num y j = NaN"
      using assms by (auto simp: zeros6_def nan6_def nth_num_def nth_Cons split: nat.splits)
    then show "entry K i j * nth_num y j = Fin 0 \<or> entry K i j * nth_num y j = NaN"
      using times_zero_cases[of "entry K i j"] by auto
  qed
  have "nth_num (multiplyMatrixVector K y) i
        = foldl (\<lambda>acc j. acc + entry K i j * nth_num y j) (Fin 0) [0..<length y]"
    using True by (simp add: nth_num_def multiplyMatrixVector_def)
  then show ?thesis using foldl_zero_or_NaN[OF terms, of "Fin 0"] by simp
qed

lemma nth_num_Cons: "nth_num (a # as) i = (if i = 0 then a else nth_num as (i - 1))"
  by (cases i) (simp_all add: nth_num_def)

lemma nth_num_Nil: "nth_num [] i = NaN"
  by (simp add: nth_num_def)

lemma kalmanCorrect_literal:
  "kalmanCorrect [a0, a1, a2, a3, a4, a5] K y =
     [a0 + nth_num (multiplyMatrixVector K y) 0, a1 + nth_num (multiplyMatrixVector K y) 1,
      a2 + nth_num (multiplyMatrixVector K y) 2, a3 + nth_num (multiplyMatrixVector K y) 3,
      a4 + nth_num (multiplyMatrixVector K y) 4, a5 + nth_num (multiplyMatrixVector K y) 5]"
  unfolding kalmanCorrect_def Let_def by (simp add: nth_num_Cons numeral_eq_Suc)

lemma plus_zero_or_NaN: "k = Fin 0 \<or> k = NaN \<Longrightarrow> Fin c + k = Fin c \<or> Fin c + k = NaN"
  by auto

lemma kalmanCorrect_rest:
  assumes "(x_pred = restEstimate \<and> y = zeros6) \<or> (x_pred = nan6 \<and> y = nan6)"
  shows "restOrNaN (kalmanCorrect x_pred K y)"
proof -
  have ky: "nth_num (multiplyMatrixVector K y) i = Fin 0 \<or> nth_num (multiplyMatrixVector K y) i = NaN" for i
    using gain_times_innovation[of y K i] assms by auto
  from assms show ?thesis
  proof
    assume "x_pred = restEstimate \<and> y = zeros6"
    then have x: "x_pred = [Fin 180, Fin 0, Fin 0, Fin 0, Fin 0, Fin 0]" by (simp add: restEstimate_def)
    show ?thesis
      unfolding x kalmanCorrect_literal restOrNaN_def restEstimate_def
      using plus_zero_or_NaN[OF ky[of 0], of 180] plus_zero_or_NaN[OF ky[of 1], of 0]
        plus_zero_or_NaN[OF ky[of 2], of 0] plus_zero_or_NaN[OF ky[of 3], of 0]
        plus_zero_or_NaN[OF ky[of 4], of 0] plus_zero_or_NaN[OF ky[of 5], of 0]
      by simp
  next
    assume "x_pred = nan6 \<and> y = nan6"
    then have x: "x_pred = [NaN, NaN, NaN, NaN, NaN, NaN]" by (simp add: nan6_def)
    show ?thesis
      unfolding x kalmanCorrect_literal restOrNaN_def restEstimate_def by simp
  qed
qed


lemma restOrNaN_literal:
  assumes "restOrNaN x"
  obtains b0 b1 b2 b3 b4 b5 where "x = [b0, b1, b2, b3, b4, b5]"
    "b0 = Fin 180 \<or> b0 = NaN" "b1 = Fin 0 \<or> b1 = NaN" "b2 = Fin 0 \<or> b2 = NaN"
  using assms unfolding restOrNaN_def restEstimate_def
  by (auto simp: list_all2_Cons2)

lemma wrap180_rest: "b = Fin 180 \<or> b = Fin 0 \<or> b = NaN \<Longrightarrow> wrap180 b = Some b"
  by (auto simp: wrap180_id wrap180_NaN)

lemma kalmanStep_rest:
  assumes p: "atRest p" and prev: "finiteTime prev" and x: "restOrNaN x"
  shows "\<exists>x1 P1 l. kalmanStep prev (x, P, transitionMatrix l0) p = Some (x1, P1, transitionMatrix l)
           \<and> restOrNaN x1"
proof -
  obtain l where l: "Math_min (calculateDt p (Some prev)) (Fin 0.5) = Fin l"
    using limitedDt_rest[OF p prev] by blast
  define F where "F = transitionMatrix (Fin l)"
  define xp where "xp = multiplyMatrixVector F x"
  define Pp where "Pp = kalmanPredictCovariance F P"
  define K where "K = kalmanGain Pp"
  define y where "y = kalmanInnovation (kalmanMeasurement p xp (Fin l)) xp"
  define x1 where "x1 = kalmanCorrect xp K y"
  have step: "kalmanStep prev (x, P, transitionMatrix l0) p =
      do { a0 \<leftarrow> wrap180 (nth_num x1 0);
           a1 \<leftarrow> wrap180 (nth_num x1 1);
           a2 \<leftarrow> wrap180 (nth_num x1 2);
           Some (x1[0 := a0, 1 := a1, 2 := a2], kalmanCorrectCovariance K Pp, F) }"
    unfolding kalmanStep_def Let_def prod.case l kalmanTransition_transition
      x1_def y_def K_def Pp_def xp_def F_def ..
  have "xp = restEstimate \<or> xp = nan6"
    unfolding xp_def F_def using predict_rest[OF x] by blast
  then have "(xp = restEstimate \<and> y = zeros6) \<or> (xp = nan6 \<and> y = nan6)"
    unfolding y_def using kalmanMeasurement_rest[OF p] kalmanInnovation_rest by auto
  then have r: "restOrNaN x1" unfolding x1_def by (rule kalmanCorrect_rest)
  then obtain b0 b1 b2 b3 b4 b5 where b: "x1 = [b0, b1, b2, b3, b4, b5]"
    "b0 = Fin 180 \<or> b0 = NaN" "b1 = Fin 0 \<or> b1 = NaN" "b2 = Fin 0 \<or> b2 = NaN"
    by (rule restOrNaN_literal)
  have w: "wrap180 b0 = Some b0" "wrap180 b1 = Some b1" "wrap180 b2 = Some b2"
    using b(2-4) by (auto intro: wrap180_rest)
  have "kalmanStep prev (x, P, transitionMatrix l0) p = Some (x1, kalmanCorrectCovariance K Pp, F)"
    unfolding step b(1) by (simp add: nth_num_Cons w)
  with r show ?thesis unfolding F_def by blast
qed

lemma restOrNaN_angles: "restOrNaN x \<Longrightarrow> restOrNaNAngles (setAngles (kalmanAngles x) p)"
  by (erule restOrNaN_literal)
     (auto simp: restOrNaNAngles_def setAngles_def kalmanAngles_def nth_num_Cons)

lemma kalmanLoop_rest:
  assumes "list_all atRest data" "finiteTime prev" "restOrNaN x"
  shows "\<exists>out. kalmanLoop prev (x, P, transitionMatrix l0) data = Some out
           \<and> length out = length data \<and> list_all restOrNaNAngles out"
  using assms
proof (induction data arbitrary: prev x P l0)
  case Nil
  then show ?case by simp
next
  case (Cons p data)
  then have p: "atRest p" by simp
  obtain x1 P1 l where s: "kalmanStep prev (x, P, transitionMatrix l0) p = Some (x1, P1, transitionMatrix l)"
      "restOrNaN x1"
    using kalmanStep_rest[OF p Cons.prems(2,3)] by blast
  have "finiteTime (setAngles (kalmanAngles x1) p)" using p by (simp add: atRest_def)
  then obtain out where out: "kalmanLoop (setAngles (kalmanAngles x1) p) (x1, P1, transitionMatrix l) data = Some out"
      "length out = length data" "list_all restOrNaNAngles out"
    using Cons.IH[of "setAngles (kalmanAngles x1) p" x1 P1 l] Cons.prems(1) s(2) by auto
  show ?case using s out restOrNaN_angles[OF s(2), of p] by simp
qed

lemma restEstimate_restOrNaN: "restOrNaN restEstimate"
  by (simp add: restOrNaN_def restEstimate_def)

lemma applyKalmanFilter_rest:
  assumes "list_all atRest data"
  shows "\<exists>out. applyKalmanFilter data = Some out \<and> length out = length data
           \<and> list_all restOrNaNAngles out"
proof (cases data)
  case Nil
  then show ?thesis by (simp add: applyKalmanFilter_def)
next
  case (Cons p rest)
  then have p: "atRest p" and rest: "list_all atRest rest" using assms by simp_all
  have init: "kalmanInit p = (restEstimate, P_init, transitionMatrix (Fin 0))"
    using p by (simp add: kalmanInit_def atRest_def accelRollOf_rest accelPitchOf_rest
        restEstimate_def identity6_transition)
  have "finiteTime (setAngles (kalmanAngles restEstimate) p)" using p by (simp add: atRest_def)
  then obtain out where out: "kalmanLoop (setAngles (kalmanAngles restEstimate) p)
        (restEstimate, P_init, transitionMatrix (Fin 0)) rest = Some out"
      "length out = length rest" "list_all restOrNaNAngles out"
    using kalmanLoop_rest[OF rest _ restEstimate_restOrNaN] by blast
  show ?thesis
    using Cons init out restOrNaN_angles[OF restEstimate_restOrNaN, of p]
    by (simp add: applyKalmanFilter_def)
qed


subsection \<open>Samples at rest: the improved complementary filter\<close>

lemma compensate_rest:
  "compensateAcceleration (Fin 0) (Fin 0) (Fin (- 1)) (Fin 0) (Fin 0) (Fin 0) (Fin 0) (Fin 0) (Fin 0)
     sensorPositionVector = (Fin 0, Fin 0, Fin (- 1))"
  unfolding compensateAcceleration_def Let_def
  by (simp add: sensorPositionVector_def distanceFromCM_def nth_num_Cons)

lemma improvedStep_rest:
  assumes p: "atRest p"
    and prev: "case prev of None \<Rightarrow> True | Some q \<Rightarrow> finiteTime q \<and> calculateDt p (Some q) \<noteq> Fin 0"
  shows "improvedStep (Fin a) prev restState p = Some (restState, (Fin 0, Fin 0, Fin (- 1)))"
proof -
  have "\<exists>d. calculateDt p prev = Fin d \<and> d \<noteq> 0"
  proof (cases prev)
    case None
    then have "calculateDt p prev = Fin (1 / 10) \<and> (1 / 10 :: real) \<noteq> 0"
      by (simp add: calculateDt_def)
    then show ?thesis by blast
  next
    case (Some q)
    then obtain d where "calculateDt p (Some q) = Fin d"
      using calculateDt_finite[of p q] p prev by (auto simp: atRest_def)
    then show ?thesis using Some prev by auto
  qed
  then obtain d where d: "calculateDt p prev = Fin d" "d \<noteq> 0" by blast
  have alg: "a * 180 + (1 - a) * 180 = (180::real)" by (simp add: algebra_simps)
  have g: "gyroX p = Fin 0" "gyroY p = Fin 0" "gyroZ p = Fin 0"
    and acc: "accelX p = Fin 0" "accelY p = Fin 0" "accelZ p = Fin (- 1)"
    using p by (simp_all add: atRest_def)
  show ?thesis
    unfolding improvedStep_def restState_def Let_def prod.case d g acc
    using d(2) alg
    by (simp add: compensate_rest accelRollOf_rest accelPitchOf_rest wrap180_id)
qed

lemma noZeroDt_annotated [simp]:
  "noZeroDt (setCompAccel c (setAngles st p) # data) = noZeroDt (p # data)"
  by (cases data) simp_all




subsection \<open>Samples at rest: what the three strategies return\<close>

lemma atRest_restPoint: "atRest (restPoint t)"
  by (simp add: atRest_def restPoint_def finiteTime_def)





subsection \<open>Causality\<close>

lemma applyImprovedComplementaryFilter_prefix:
  "applyImprovedComplementaryFilter (xs @ ys) alpha = Some out
     \<Longrightarrow> applyImprovedComplementaryFilter xs alpha = Some (take (length xs) out)"
  by (cases xs)
     (auto simp: applyImprovedComplementaryFilter_def Let_def split: prod.splits
           dest: improvedLoop_prefix[of _ _ _ "_ # _", simplified])

lemma applyKalmanFilter_prefix:
  "applyKalmanFilter (xs @ ys) = Some out \<Longrightarrow> applyKalmanFilter xs = Some (take (length xs) out)"
  by (cases xs)
     (auto simp: applyKalmanFilter_def Let_def split: bind_splits dest: kalmanLoop_prefix)

lemma applyMadgwickFilter_prefix:
  "applyMadgwickFilter (xs @ ys) beta = Some out
     \<Longrightarrow> applyMadgwickFilter xs beta = Some (take (length xs) out)"
  by (cases xs)
     (auto simp: applyMadgwickFilter_def dest: madgwickLoop_prefix[of _ _ _ "_ # _", simplified])

subsection \<open>What a wrapping loop leaves\<close>







subsection \<open>The yaw of the complementary filters\<close>


lemma yaw_setAngles [simp]: "yaw (setAngles (r, p, y) point) = Some y"
  "roll (setAngles (r, p, y) point) = Some r" "pitch (setAngles (r, p, y) point) = Some p"
  by (simp_all add: setAngles_def)

lemma yaw_setCompAccel [simp]: "yaw (setCompAccel c point) = yaw point"
  "roll (setCompAccel c point) = roll point" "pitch (setCompAccel c point) = pitch point"
  by (cases c; simp add: setCompAccel_def)+






subsection \<open>The yaw of the Madgwick filter\<close>





subsection \<open>The angles of the Kalman filter\<close>







subsection \<open>On finite samples the complementary filters return a yaw in range\<close>








subsection \<open>The range of the fused angles\<close>






subsection \<open>The clamp of dt\<close>

lemma calculateDt_jump:
  "relativeTime prev = Some (Fin t)
     \<Longrightarrow> calculateDt (point\<lparr>relativeTime := Some (Fin (t + d))\<rparr>) (Some prev) = Fin d"
  by (simp add: calculateDt_def)

lemma limitedDt_jump:
  assumes "relativeTime prev = Some (Fin t)" "0.5 \<le> d"
  shows "Math_min (calculateDt (point\<lparr>relativeTime := Some (Fin (t + d))\<rparr>) (Some prev)) (Fin 0.5) = Fin 0.5"
  using assms by (simp add: calculateDt_jump min_def)

lemma limitedDt_half:
  assumes "relativeTime prev = Some (Fin t)"
  shows "Math_min (calculateDt (point\<lparr>relativeTime := Some (Fin (t + 0.5))\<rparr>) (Some prev)) (Fin 0.5) = Fin 0.5"
  using limitedDt_jump[OF assms, of "0.5" point] by simp

lemma Math_min_le: "\<not> js_gt (Math_min a (Fin c)) (Fin c)"
  by (cases a) auto

lemma compStep_jump:
  assumes "relativeTime prev = Some (Fin t)" "0.5 \<le> d"
  shows "compStep alpha (Some prev) st (point\<lparr>relativeTime := Some (Fin (t + d))\<rparr>)
       = compStep alpha (Some prev) st (point\<lparr>relativeTime := Some (Fin (t + 0.5))\<rparr>)"
  unfolding compStep_def Let_def limitedDt_jump[OF assms] limitedDt_half[OF assms(1)]
  by simp

lemma kalmanStep_jump:
  assumes "relativeTime prev = Some (Fin t)" "0.5 \<le> d"
  shows "kalmanStep prev st (point\<lparr>relativeTime := Some (Fin (t + d))\<rparr>)
       = kalmanStep prev st (point\<lparr>relativeTime := Some (Fin (t + 0.5))\<rparr>)"
  unfolding kalmanStep_def kalmanMeasurement_def Let_def
    limitedDt_jump[OF assms] limitedDt_half[OF assms(1)]
  by simp

lemma madgwickStep_jump:
  assumes "relativeTime prev = Some (Fin t)" "0.5 \<le> d"
  shows "madgwickStep beta (Some prev) q (point\<lparr>relativeTime := Some (Fin (t + d))\<rparr>)
       = madgwickStep beta (Some prev) q (point\<lparr>relativeTime := Some (Fin (t + 0.5))\<rparr>)"
  unfolding madgwickStep_def madgwickUpdate_def normalizeAccel_def Let_def
    limitedDt_jump[OF assms] limitedDt_half[OF assms(1)]
  by simp

lemma improvedStep_jump_yaw:
  assumes "relativeTime prev = Some (Fin t)" "0.5 \<le> d"
  shows "map_option (\<lambda>(s, c). snd (snd (fst s)))
           (improvedStep alpha (Some prev) st (point\<lparr>relativeTime := Some (Fin (t + d))\<rparr>))
       = map_option (\<lambda>(s, c). snd (snd (fst s)))
           (improvedStep alpha (Some prev) st (point\<lparr>relativeTime := Some (Fin (t + 0.5))\<rparr>))"
  unfolding improvedStep_def Let_def limitedDt_jump[OF assms] limitedDt_half[OF assms(1)]
  by (simp add: map_option_case split: prod.splits option.splits bind_splits)

lemma improvedStep_jump_roll:
  assumes "relativeTime prev = Some (Fin t)" "0.5 \<le> d"
  shows "map_option (\<lambda>(((r1, p1, y1), g1), (cx, cy, cz)). (r1, p1))
           (improvedStep alpha (Some prev) ((r, p, y), g) (point\<lparr>relativeTime := Some (Fin (t + d))\<rparr>))
       = map_option (\<lambda>(((r1, p1, y1), g1), (cx, cy, cz)).
            (alpha * (r + gyroX point * Fin 0.5) + (Fin 1 - alpha) * accelRollOf cx cy cz,
             alpha * (p + gyroY point * Fin 0.5) + (Fin 1 - alpha) * accelPitchOf cx cy cz))
           (improvedStep alpha (Some prev) ((r, p, y), g) (point\<lparr>relativeTime := Some (Fin (t + d))\<rparr>))"
  unfolding improvedStep_def Let_def limitedDt_jump[OF assms]
  by (cases g) (simp split: prod.splits option.splits bind_splits)


text \<open>
  C3. Every strategy integrates the gyroscope over \<^verbatim>\<open>Math.min(dt, 0.5)\<close>, which is
  never greater than 0.5. A sample that comes \<open>d \<ge> 0.5\<close> seconds after its predecessor
  (10 seconds, say) therefore gives the same step as one that comes 0.5 seconds after it,
  in the complementary, Kalman and Madgwick filters; in the improved complementary
  filter it gives the same yaw, and a roll and pitch whose gyroscope term is the rate
  times 0.5.
\<close>

theorem dt_clamped:
  assumes "relativeTime prev = Some (Fin t)" "0.5 \<le> d"
  shows "compStep alpha (Some prev) cst (point\<lparr>relativeTime := Some (Fin (t + d))\<rparr>)
           = compStep alpha (Some prev) cst (point\<lparr>relativeTime := Some (Fin (t + 0.5))\<rparr>)
    \<and> kalmanStep prev kst (point\<lparr>relativeTime := Some (Fin (t + d))\<rparr>)
           = kalmanStep prev kst (point\<lparr>relativeTime := Some (Fin (t + 0.5))\<rparr>)
    \<and> madgwickStep beta (Some prev) q (point\<lparr>relativeTime := Some (Fin (t + d))\<rparr>)
           = madgwickStep beta (Some prev) q (point\<lparr>relativeTime := Some (Fin (t + 0.5))\<rparr>)
    \<and> map_option (\<lambda>(s, c). snd (snd (fst s)))
           (improvedStep alpha (Some prev) ((r, p, y), g) (point\<lparr>relativeTime := Some (Fin (t + d))\<rparr>))
         = map_option (\<lambda>(s, c). snd (snd (fst s)))
           (improvedStep alpha (Some prev) ((r, p, y), g) (point\<lparr>relativeTime := Some (Fin (t + 0.5))\<rparr>))
    \<and> map_option (\<lambda>(((r1, p1, y1), g1), (cx, cy, cz)). (r1, p1))
           (improvedStep alpha (Some prev) ((r, p, y), g) (point\<lparr>relativeTime := Some (Fin (t + d))\<rparr>))
         = map_option (\<lambda>(((r1, p1, y1), g1), (cx, cy, cz)).
              (alpha * (r + gyroX point * Fin 0.5) + (Fin 1 - alpha) * accelRollOf cx cy cz,
               alpha * (p + gyroY point * Fin 0.5) + (Fin 1 - alpha) * accelPitchOf cx cy cz))
           (improvedStep alpha (Some prev) ((r, p, y), g) (point\<lparr>relativeTime := Some (Fin (t + d))\<rparr>))
    \<and> \<not> js_gt (Math_min (calculateDt point (Some prev)) (Fin 0.5)) (Fin 0.5)"
  using compStep_jump[OF assms] kalmanStep_jump[OF assms] madgwickStep_jump[OF assms]
    improvedStep_jump_yaw[OF assms] improvedStep_jump_roll[OF assms] Math_min_le
  by blast

theorem dt_clamped_witness:
  "relativeTime (restPoint 0) = Some (Fin 0) \<and> (0.5::real) \<le> 10
   \<and> compStep (Fin 0.98) (Some (restPoint 0)) (Fin 180, Fin 0, Fin 0)
        (spinPoint\<lparr>relativeTime := Some (Fin (0 + 10))\<rparr>)
      = compStep (Fin 0.98) (Some (restPoint 0)) (Fin 180, Fin 0, Fin 0)
        (spinPoint\<lparr>relativeTime := Some (Fin (0 + 0.5))\<rparr>)
   \<and> compStep (Fin 0.98) (Some (restPoint 0)) (Fin 180, Fin 0, Fin 0)
        (spinPoint\<lparr>relativeTime := Some (Fin (0 + 10))\<rparr>)
      = Some (Fin 670, Fin 0, Fin (- 80))
   \<and> kalmanStep (restPoint 0) (kalmanInit (restPoint 0)) (spinPoint\<lparr>relativeTime := Some (Fin (0 + 10))\<rparr>)
      = kalmanStep (restPoint 0) (kalmanInit (restPoint 0)) (spinPoint\<lparr>relativeTime := Some (Fin (0 + 0.5))\<rparr>)
   \<and> madgwickStep (Fin 0.1) (Some (restPoint 0)) (Fin 1, Fin 0, Fin 0, Fin 0)
        (spinPoint\<lparr>relativeTime := Some (Fin (0 + 10))\<rparr>)
      = madgwickStep (Fin 0.1) (Some (restPoint 0)) (Fin 1, Fin 0, Fin 0, Fin 0)
        (spinPoint\<lparr>relativeTime := Some (Fin (0 + 0.5))\<rparr>)"
proof -
  have h1: "relativeTime (restPoint 0) = Some (Fin 0)" by (simp add: restPoint_def)
  have h2: "(0.5::real) \<le> 10" by simp
  have v: "compStep (Fin 0.98) (Some (restPoint 0)) (Fin 180, Fin 0, Fin 0)
        (spinPoint\<lparr>relativeTime := Some (Fin (0 + 10))\<rparr>) = Some (Fin 670, Fin 0, Fin (- 80))"
    unfolding compStep_def Let_def
    by (simp add: spinPoint_def eval_defs)
  show ?thesis
    using h1 h2 v
      dt_clamped[OF h1 h2, of "Fin 0.98" "(Fin 180, Fin 0, Fin 0)" spinPoint "kalmanInit (restPoint 0)"
        "Fin 0.1" "(Fin 1, Fin 0, Fin 0, Fin 0)"]
    by blast
qed


subsection \<open>The divisions without a guard\<close>

lemma divide_zero_times_zero: "(a / Fin 0) * Fin 0 = NaN"
  by (cases a) auto

lemma compensate_zero_dt:
  "compensateAcceleration ax ay az gx gy gz (u / Fin 0) (v / Fin 0) (w / Fin 0) sensorPositionVector
     = (NaN, NaN, NaN)"
  unfolding compensateAcceleration_def Let_def
  by (simp add: sensorPositionVector_def nth_num_Cons divide_zero_times_zero)

lemma accelRollOf_NaN [simp]: "accelRollOf NaN NaN NaN = NaN"
  by (simp add: accelRollOf_def)

lemma accelPitchOf_NaN [simp]: "accelPitchOf NaN NaN NaN = NaN"
  by (simp add: accelPitchOf_def)

lemma improvedStep_zero_dt:
  assumes "calculateDt point (Some prev) = Fin 0"
  shows "improvedStep alpha (Some prev) ((r, p, y), g) point
       = map_option (\<lambda>y1. (((NaN, NaN, y1), (gyroX point, gyroY point, gyroZ point)), (NaN, NaN, NaN)))
           (wrap180 (y + gyroZ point * Fin 0))"
  unfolding improvedStep_def Let_def assms
  by (cases g; cases "wrap180 (y + gyroZ point * Fin 0)") (simp_all add: compensate_zero_dt)

lemma improvedStep_NaN_persists:
  "map_option (\<lambda>(((r1, p1, y1), g1), c). (r1, p1))
      (improvedStep alpha (Some prev) ((NaN, NaN, y), g) point)
   = map_option (\<lambda>s. (NaN, NaN)) (improvedStep alpha (Some prev) ((NaN, NaN, y), g) point)"
  unfolding improvedStep_def Let_def
  by (cases g) (simp split: prod.splits option.splits bind_splits)

lemma madgwickStep_zero_accel:
  assumes "accelX point = Fin 0" "accelY point = Fin 0" "accelZ point = Fin 0"
  shows "madgwickStep beta prev q point = Some ((NaN, NaN, NaN, NaN), (NaN, NaN, NaN))"
  by (simp add: madgwickStep_def madgwickUpdate_zero_accel[OF assms] wrap180_NaN)

text \<open>
  C5, as the specification states it, fails: two samples at the same relative time give
  a \<^verbatim>\<open>dt\<close> of 0, and the improved complementary filter returns NaN for the roll, the
  pitch and the compensated acceleration of the second one.
\<close>

theorem zero_dt_gives_NaN:
  "map_option (map (\<lambda>p. (roll p, pitch p, compAccelX p)))
     (applyImprovedComplementaryFilter [restPoint 0, restPoint 0] (Fin 0.98))
   = Some [(Some (Fin 180), Some (Fin 0), Some (Fin 0)), (Some NaN, Some NaN, Some NaN)]"
  unfolding applyImprovedComplementaryFilter_def
  by (simp add: improvedStep_def compensateAcceleration_def sensorPositionVector_def
      distanceFromCM_def nth_num_def eval_defs)

text \<open>
  C5, amended. Neither division is guarded. A sample whose accelerometer vector is
  \<open>(0, 0, 0)\<close> turns the quaternion of the Madgwick filter and its roll, pitch and yaw
  into NaN, and from a NaN quaternion every later step returns NaN again. A sample with a
  \<^verbatim>\<open>dt\<close> of 0 turns the compensated acceleration, the roll and the pitch of the
  improved complementary filter into NaN, and from a NaN roll and pitch every later step
  returns NaN for both again.
\<close>

theorem unguarded_divisions:
  "(accelX point = Fin 0 \<and> accelY point = Fin 0 \<and> accelZ point = Fin 0 \<longrightarrow>
      madgwickStep beta prevOpt q point = Some ((NaN, NaN, NaN, NaN), (NaN, NaN, NaN)))
   \<and> madgwickStep beta prevOpt (NaN, NaN, NaN, NaN) point = Some ((NaN, NaN, NaN, NaN), (NaN, NaN, NaN))
   \<and> (calculateDt point (Some prev) = Fin 0 \<longrightarrow>
        improvedStep alpha (Some prev) ((r, p, y), g) point
          = map_option (\<lambda>y1. (((NaN, NaN, y1), (gyroX point, gyroY point, gyroZ point)), (NaN, NaN, NaN)))
              (wrap180 (y + gyroZ point * Fin 0)))
   \<and> map_option (\<lambda>(((r1, p1, y1), g1), c). (r1, p1))
        (improvedStep alpha (Some prev) ((NaN, NaN, y), g) point)
      = map_option (\<lambda>s. (NaN, NaN)) (improvedStep alpha (Some prev) ((NaN, NaN, y), g) point)"
  using madgwickStep_zero_accel madgwickStep_NaN improvedStep_zero_dt improvedStep_NaN_persists
  by blast

theorem unguarded_divisions_witness:
  "accelX zeroAccelPoint = Fin 0 \<and> accelY zeroAccelPoint = Fin 0 \<and> accelZ zeroAccelPoint = Fin 0
   \<and> madgwickStep (Fin 0.1) None (Fin 1, Fin 0, Fin 0, Fin 0) zeroAccelPoint
        = Some ((NaN, NaN, NaN, NaN), (NaN, NaN, NaN))
   \<and> calculateDt (restPoint 0) (Some (restPoint 0)) = Fin 0
   \<and> improvedStep (Fin 0.98) (Some (restPoint 0)) restState (restPoint 0)
        = Some (((NaN, NaN, Fin 0), (Fin 0, Fin 0, Fin 0)), (NaN, NaN, NaN))"
proof -
  have a: "accelX zeroAccelPoint = Fin 0 \<and> accelY zeroAccelPoint = Fin 0 \<and> accelZ zeroAccelPoint = Fin 0"
    by (simp add: zeroAccelPoint_def restPoint_def)
  have d: "calculateDt (restPoint 0) (Some (restPoint 0)) = Fin 0"
    by (simp add: calculateDt_def restPoint_def)
  have w: "wrap180 (Fin 0 + gyroZ (restPoint 0) * Fin 0) = Some (Fin 0)"
    by (simp add: restPoint_def wrap180_id)
  have g: "(gyroX (restPoint 0), gyroY (restPoint 0), gyroZ (restPoint 0)) = (Fin 0, Fin 0, Fin 0)"
    by (simp add: restPoint_def)
  note t = unguarded_divisions[of zeroAccelPoint "Fin 0.1" None "(Fin 1, Fin 0, Fin 0, Fin 0)"
      "restPoint 0" "Fin 0.98" "Fin 180" "Fin 0" "Fin 0" "(Fin 0, Fin 0, Fin 0)"]
  note t2 = unguarded_divisions[of "restPoint 0" "Fin 0.1" None "(Fin 1, Fin 0, Fin 0, Fin 0)"
      "restPoint 0" "Fin 0.98" "Fin 180" "Fin 0" "Fin 0" "(Fin 0, Fin 0, Fin 0)"]
  have m: "madgwickStep (Fin 0.1) None (Fin 1, Fin 0, Fin 0, Fin 0) zeroAccelPoint
        = Some ((NaN, NaN, NaN, NaN), (NaN, NaN, NaN))"
    using t a by blast
  have "improvedStep (Fin 0.98) (Some (restPoint 0)) ((Fin 180, Fin 0, Fin 0), (Fin 0, Fin 0, Fin 0)) (restPoint 0)
      = map_option (\<lambda>y1. (((NaN, NaN, y1), (gyroX (restPoint 0), gyroY (restPoint 0), gyroZ (restPoint 0))), (NaN, NaN, NaN)))
              (wrap180 (Fin 0 + gyroZ (restPoint 0) * Fin 0))"
    using t2 d by blast
  then have i: "improvedStep (Fin 0.98) (Some (restPoint 0)) restState (restPoint 0)
        = Some (((NaN, NaN, Fin 0), (Fin 0, Fin 0, Fin 0)), (NaN, NaN, NaN))"
    unfolding w restState_def using g by simp
  show ?thesis using a m d i by blast
qed

subsection \<open>The norm of the quaternion\<close>





subsection \<open>Reading a file\<close>

lemmas string_defs = tab_def newline_def nonBlankRows_def headersOf_def trim_def trimStart_def
  isWhiteSpace_def parseRow_def parseInt_def parseFloat_def takeSign_def isDigit_def
  digitValue_def digitsValue_def isHexDigit_def hexDigitValue_def hexValue_def exponentPart_def
  numberOf_def Let_def

lemma nonBlankRows_goodFile:
  "nonBlankRows goodFile = [''timestamp'' @ tab @ ''accelZ'', ''1000'' @ tab @ ''1'', ''1100'' @ tab @ ''0,5'']"
  by (simp add: goodFile_def string_defs)

lemma headers_good: "headersOf (''timestamp'' @ tab @ ''accelZ'') = [''timestamp'', ''accelZ'']"
  by (simp add: string_defs)




subsection \<open>Rows\<close>

lemma split_nonempty: "split sep s \<noteq> []"
  by (induction s) (auto split: list.splits)

lemma fillRow_short:
  assumes "length values < index + length hs" "index \<le> length values" "values \<noteq> []"
  shows "fillRow hs index values row = Inl TypeError"
  using assms
proof (induction hs arbitrary: index row)
  case Nil
  then show ?case by simp
next
  case (Cons header hs)
  show ?case
  proof (cases "index = 0")
    case True
    have "fillRow hs (Suc 0) values (row(header \<mapsto> (case values of v # _ \<Rightarrow> parseInt v | [] \<Rightarrow> NaN)))
            = Inl TypeError"
      using Cons.prems True by (intro Cons.IH) (auto simp: Suc_le_eq)
    then show ?thesis using True by simp
  next
    case False
    show ?thesis
    proof (cases "index < length values")
      case True
      have "fillRow hs (Suc index) values
              (row(header \<mapsto> parseFloat (replaceFirst (CHR '','') (CHR ''.'') (values ! index))))
            = Inl TypeError"
        using Cons.prems True by (intro Cons.IH) auto
      then show ?thesis using False True by simp
    next
      case False
      then show ?thesis using \<open>index \<noteq> 0\<close> by simp
    qed
  qed
qed

lemma fillRow_long:
  assumes "index + length hs \<le> length values"
  shows "\<exists>r. fillRow hs index values row = Inr r"
  using assms
proof (induction hs arbitrary: index row)
  case Nil
  then show ?case by simp
next
  case (Cons header hs)
  then have "Suc index + length hs \<le> length values" "index < length values" by simp_all
  then show ?case using Cons.IH[of "Suc index"] by (cases "index = 0") auto
qed

lemma parseRow_short:
  "length (split (CHR 0x09) row) < length headers \<Longrightarrow> parseRow headers row = Inl TypeError"
  unfolding parseRow_def by (rule fillRow_short) (simp_all add: split_nonempty)

lemma parseRow_long:
  "length headers \<le> length (split (CHR 0x09) row) \<Longrightarrow> \<exists>r. parseRow headers row = Inr r"
  unfolding parseRow_def by (rule fillRow_long) simp

lemma error_is_TypeError: "(e::error) = TypeError"
  by (cases e) simp

lemma parseRows_short:
  assumes "\<exists>row \<in> set rows. length (split (CHR 0x09) row) < length headers"
  shows "parseRows headers rows = Inl TypeError"
  using assms
proof (induction rows)
  case Nil
  then show ?case by simp
next
  case (Cons row rows)
  show ?case
  proof (cases "parseRow headers row")
    case (Inl e)
    then show ?thesis by (simp add: error_is_TypeError)
  next
    case (Inr d)
    then have "\<not> length (split (CHR 0x09) row) < length headers"
      using parseRow_short[of row headers] by auto
    then have "parseRows headers rows = Inl TypeError" using Cons by auto
    then show ?thesis using Inr by simp
  qed
qed

lemma parseRows_long:
  assumes "\<forall>row \<in> set rows. length headers \<le> length (split (CHR 0x09) row)"
  shows "\<exists>ds. parseRows headers rows = Inr ds \<and> length ds = length rows"
  using assms
proof (induction rows)
  case Nil
  then show ?case by simp
next
  case (Cons row rows)
  obtain d where "parseRow headers row = Inr d" using parseRow_long[of headers row] Cons.prems by auto
  moreover obtain ds where "parseRows headers rows = Inr ds" "length ds = length rows"
    using Cons by auto
  ultimately show ?case by simp
qed

lemma parsedData_short:
  assumes "nonBlankRows fileContent = headerRow # dataRows"
    "\<exists>row \<in> set dataRows. length (split (CHR 0x09) row) < length (headersOf headerRow)"
  shows "parsedData fileContent = Inl TypeError"
  unfolding parsedData_def assms(1) using parseRows_short[OF assms(2)] by simp

lemma parsedData_long:
  assumes "nonBlankRows fileContent = headerRow # dataRows" "dataRows \<noteq> []"
    "\<forall>row \<in> set dataRows. length (headersOf headerRow) \<le> length (split (CHR 0x09) row)"
  shows "\<exists>rows. parsedData fileContent = Inr rows \<and> length rows = length dataRows"
proof -
  obtain ds where ds: "parseRows (headersOf headerRow) dataRows = Inr ds" "length ds = length dataRows"
    using parseRows_long[OF assms(3)] by blast
  then obtain d0 ds' where "ds = d0 # ds'" using assms(2) by (cases ds) auto
  then show ?thesis unfolding parsedData_def assms(1) using ds by (simp add: Let_def)
qed


lemma processData_error: "parsedData fileContent = Inl e \<Longrightarrow> processData fileContent = Inl e"
  by (simp add: processData_def)

lemma processData_length:
  "parsedData fileContent = Inr rows
     \<Longrightarrow> \<exists>out. processData fileContent = Inr out \<and> length out = length rows"
  by (simp add: processData_def)

subsection \<open>The average\<close>











text \<open>
  C6, as the specification states it, fails: a field that is not a number does not make
  \<^verbatim>\<open>processData\<close> fail. The row is accepted with NaN in that field.
\<close>

theorem unparsable_field_accepted:
  "map_sum id (map (\<lambda>row. numberOf row ''accelZ'')) (processData badNumberFile) = Inr [NaN]"
proof -
  have n: "nonBlankRows badNumberFile = [''timestamp'' @ tab @ ''accelZ'', ''1000'' @ tab @ ''abc'']"
    by (simp add: badNumberFile_def string_defs)
  have r: "parseRow [''timestamp'', ''accelZ''] (''1000'' @ tab @ ''abc'')
     = Inr (Map.empty(''timestamp'' \<mapsto> Fin 1000, ''accelZ'' \<mapsto> NaN))"
    by (simp add: string_defs)
  have rs: "parseRows [''timestamp'', ''accelZ''] [''1000'' @ tab @ ''abc'']
     = Inr [Map.empty(''timestamp'' \<mapsto> Fin 1000, ''accelZ'' \<mapsto> NaN)]"
    by (simp only: parseRows.simps r sum.case)
  have p: "parsedData badNumberFile
     = Inr [Map.empty(''timestamp'' \<mapsto> Fin 1000, ''accelZ'' \<mapsto> NaN, ''relativeTime'' \<mapsto> Fin 0)]"
    unfolding parsedData_def n list.case headers_good rs sum.case by (simp add: numberOf_def)
  show ?thesis
    unfolding processData_def p needsZInversion_def avgAccelZ_def Let_def
    by (simp add: numberOf_def)
qed

text \<open>
  C6, amended. A data row with fewer tab-separated fields than the header makes
  \<^verbatim>\<open>processData\<close> throw (a \<^verbatim>\<open>TypeError\<close>), and no sequence is handed on. When
  every data row has at least as many fields as the header, and there is a data row,
  \<^verbatim>\<open>processData\<close> hands on one sample per data row, whatever the fields contain.
\<close>

theorem short_row_throws:
  assumes "nonBlankRows fileContent = headerRow # dataRows"
  shows "((\<exists>row \<in> set dataRows. length (split (CHR 0x09) row) < length (headersOf headerRow))
            \<longrightarrow> processData fileContent = Inl TypeError)
       \<and> (dataRows \<noteq> []
            \<and> (\<forall>row \<in> set dataRows. length (headersOf headerRow) \<le> length (split (CHR 0x09) row))
            \<longrightarrow> (\<exists>rows. processData fileContent = Inr rows \<and> length rows = length dataRows))"
proof (intro conjI impI)
  assume "\<exists>row \<in> set dataRows. length (split (CHR 0x09) row) < length (headersOf headerRow)"
  then show "processData fileContent = Inl TypeError"
    using parsedData_short[OF assms] processData_error by blast
next
  assume "dataRows \<noteq> []
      \<and> (\<forall>row \<in> set dataRows. length (headersOf headerRow) \<le> length (split (CHR 0x09) row))"
  then obtain rows where "parsedData fileContent = Inr rows" "length rows = length dataRows"
    using parsedData_long[OF assms] by blast
  then show "\<exists>rows. processData fileContent = Inr rows \<and> length rows = length dataRows"
    using processData_length by fastforce
qed

theorem short_row_throws_witness:
  "nonBlankRows shortRowFile = (''timestamp'' @ tab @ ''accelZ'') # [''1000'' @ tab @ ''1'', ''1100'']
   \<and> length (split (CHR 0x09) ''1100'') < length (headersOf (''timestamp'' @ tab @ ''accelZ''))
   \<and> processData shortRowFile = Inl TypeError
   \<and> nonBlankRows goodFile
       = (''timestamp'' @ tab @ ''accelZ'') # [''1000'' @ tab @ ''1'', ''1100'' @ tab @ ''0,5'']
   \<and> (\<exists>rows. processData goodFile = Inr rows
         \<and> length rows = length [''1000'' @ tab @ ''1'', ''1100'' @ tab @ ''0,5''])"
proof -
  have n: "nonBlankRows shortRowFile
      = (''timestamp'' @ tab @ ''accelZ'') # [''1000'' @ tab @ ''1'', ''1100'']"
    by (simp add: shortRowFile_def string_defs)
  have s: "length (split (CHR 0x09) ''1100'') < length (headersOf (''timestamp'' @ tab @ ''accelZ''))"
    unfolding headers_good by simp
  then have s': "\<exists>row \<in> set [''1000'' @ tab @ ''1'', ''1100''].
      length (split (CHR 0x09) row) < length (headersOf (''timestamp'' @ tab @ ''accelZ''))"
    by (intro bexI[of _ "''1100''"]) simp_all
  have e: "processData shortRowFile = Inl TypeError"
    using short_row_throws[OF n] s' by blast
  have l: "[''1000'' @ tab @ ''1'', ''1100'' @ tab @ ''0,5''] \<noteq> []
      \<and> (\<forall>row \<in> set [''1000'' @ tab @ ''1'', ''1100'' @ tab @ ''0,5''].
      length (headersOf (''timestamp'' @ tab @ ''accelZ'')) \<le> length (split (CHR 0x09) row))"
    unfolding headers_good by (simp add: tab_def)
  have g: "\<exists>rows. processData goodFile = Inr rows
         \<and> length rows = length [''1000'' @ tab @ ''1'', ''1100'' @ tab @ ''0,5'']"
    using short_row_throws[OF nonBlankRows_goodFile] l by blast
  show ?thesis using n s e nonBlankRows_goodFile g by blast
qed

subsection \<open>The input objects\<close>

text \<open>
  On an array of distinct objects a filter on the store computes what the filter on the
  values computes, and writes each fused sample at the address of the sample it was
  computed from.
\<close>

lemma writeAll_Cons [simp]: "writeAll (r # refs) (p # out) h = writeAll refs out (h(r := p))"
  by (simp add: writeAll_def)

lemma writeAll_Nil [simp]: "writeAll [] out h = h"
  by (simp add: writeAll_def)

lemma map_fun_upd_notin: "r \<notin> set refs \<Longrightarrow> map (h(r := p)) refs = map h refs"
  by (induction refs) auto

lemma compLoopStore_compLoop:
  assumes "distinct refs" "case prevRef of None \<Rightarrow> True | Some r \<Rightarrow> r \<notin> set refs"
  shows "compLoopStore alpha prevRef st refs h
       = map_option (\<lambda>out. writeAll refs out h) (compLoop alpha (map_option h prevRef) st (map h refs))"
  using assms
proof (induction refs arbitrary: prevRef st h)
  case Nil
  then show ?case by simp
next
  case (Cons r refs)
  show ?case
  proof (cases "compStep alpha (map_option h prevRef) st (h r)")
    case None
    then show ?thesis by simp
  next
    case (Some st1)
    let ?p = "setAngles st1 (h r)"
    let ?h = "h(r := ?p)"
    have r: "r \<notin> set refs" "distinct refs" using Cons.prems by simp_all
    have "compLoopStore alpha (Some r) st1 refs ?h
       = map_option (\<lambda>out. writeAll refs out ?h)
           (compLoop alpha (map_option ?h (Some r)) st1 (map ?h refs))"
      by (rule Cons.IH) (use r in simp_all)
    then have ih: "compLoopStore alpha (Some r) st1 refs ?h
       = map_option (\<lambda>out. writeAll refs out ?h) (compLoop alpha (Some ?p) st1 (map h refs))"
      unfolding map_fun_upd_notin[OF r(1)] option.map fun_upd_same .
    show ?thesis
      using Some ih by (cases "compLoop alpha (Some ?p) st1 (map h refs)") simp_all
  qed
qed

lemma applyComplementaryFilterStore_pure:
  assumes "distinct data"
  shows "applyComplementaryFilterStore data alpha h
       = map_option (\<lambda>out. (data, writeAll data out h)) (applyComplementaryFilter (map h data) alpha)"
proof (cases data)
  case Nil
  then show ?thesis by (simp add: applyComplementaryFilterStore_def applyComplementaryFilter_def)
next
  case (Cons r rest)
  show ?thesis
    unfolding applyComplementaryFilterStore_def applyComplementaryFilter_def Let_def
      compLoopStore_compLoop[OF assms, of None, simplified]
    unfolding Cons
    by (simp add: map_option_case split: option.splits)
qed

lemma improvedLoopStore_improvedLoop:
  assumes "distinct refs" "case prevRef of None \<Rightarrow> True | Some r \<Rightarrow> r \<notin> set refs"
  shows "improvedLoopStore alpha prevRef st refs h
       = map_option (\<lambda>out. writeAll refs out h)
           (improvedLoop alpha (map_option h prevRef) st (map h refs))"
  using assms
proof (induction refs arbitrary: prevRef st h)
  case Nil
  then show ?case by simp
next
  case (Cons r refs)
  show ?case
  proof (cases "improvedStep alpha (map_option h prevRef) st (h r)")
    case None
    then show ?thesis by simp
  next
    case (Some res)
    obtain st1 c where res: "res = (st1, c)" by (cases res) auto
    let ?p = "setCompAccel c (setAngles (fst st1) (h r))"
    let ?h = "h(r := ?p)"
    have r: "r \<notin> set refs" "distinct refs" using Cons.prems by simp_all
    have "improvedLoopStore alpha (Some r) st1 refs ?h
       = map_option (\<lambda>out. writeAll refs out ?h)
           (improvedLoop alpha (map_option ?h (Some r)) st1 (map ?h refs))"
      by (rule Cons.IH) (use r in simp_all)
    then have ih: "improvedLoopStore alpha (Some r) st1 refs ?h
       = map_option (\<lambda>out. writeAll refs out ?h) (improvedLoop alpha (Some ?p) st1 (map h refs))"
      unfolding map_fun_upd_notin[OF r(1)] option.map fun_upd_same .
    show ?thesis
      using Some res ih by (cases "improvedLoop alpha (Some ?p) st1 (map h refs)") simp_all
  qed
qed

lemma applyImprovedComplementaryFilterStore_pure:
  assumes "distinct data"
  shows "applyImprovedComplementaryFilterStore data alpha h
       = map_option (\<lambda>out. (data, writeAll data out h))
           (applyImprovedComplementaryFilter (map h data) alpha)"
proof (cases data)
  case Nil
  then show ?thesis
    by (simp add: applyImprovedComplementaryFilterStore_def applyImprovedComplementaryFilter_def)
next
  case (Cons r rest)
  show ?thesis
    unfolding applyImprovedComplementaryFilterStore_def applyImprovedComplementaryFilter_def Let_def
      improvedLoopStore_improvedLoop[OF assms, of None, simplified]
    unfolding Cons
    by (simp add: map_option_case split: option.splits prod.splits)
qed

text \<open>
  C9 fails on the code. The array \<^verbatim>\<open>result\<close> is a copy, the objects in it are
  not: after a run of either complementary filter on an array that holds the address 7,
  the object at that address, which had no roll, carries the fused angles (and, for the
  improved filter, the compensated acceleration).
\<close>

theorem filter_writes_into_input:
  "roll (restPoint 0) = None
   \<and> map_option (\<lambda>(result, h). (result, roll (h 7), pitch (h 7), yaw (h 7)))
       (applyComplementaryFilterStore [7] (Fin 0.98) (\<lambda>a. restPoint 0))
     = Some ([7], Some (Fin 180), Some (Fin 0), Some (Fin 0))
   \<and> map_option (\<lambda>(result, h). (result, roll (h 7), compAccelZ (h 7)))
       (applyImprovedComplementaryFilterStore [7] (Fin 0.98) (\<lambda>a. restPoint 0))
     = Some ([7], Some (Fin 180), Some (Fin (- 1)))"
proof -
  have i: "improvedStep (Fin a) None ((Fin 180, Fin 0, Fin 0), (Fin 0, Fin 0, Fin 0)) (restPoint 0)
      = Some (((Fin 180, Fin 0, Fin 0), (Fin 0, Fin 0, Fin 0)), (Fin 0, Fin 0, Fin (- 1)))" for a
    using improvedStep_rest[of "restPoint 0" None a] by (simp add: atRest_restPoint restState_def)
  have a: "accelX (restPoint 0) = Fin 0" "accelY (restPoint 0) = Fin 0" "accelZ (restPoint 0) = Fin (- 1)"
    "gyroX (restPoint 0) = Fin 0" "gyroY (restPoint 0) = Fin 0" "gyroZ (restPoint 0) = Fin 0"
    by (simp_all add: restPoint_def)
  have plain: "map_option (\<lambda>(result, h). (result, roll (h 7), pitch (h 7), yaw (h 7)))
       (applyComplementaryFilterStore [7] (Fin 0.98) (\<lambda>a. restPoint 0))
     = Some ([7], Some (Fin 180), Some (Fin 0), Some (Fin 0))"
    unfolding applyComplementaryFilterStore_def Let_def
    by (simp add: a accelRollOf_rest accelPitchOf_rest compStep_first)
  have improved: "map_option (\<lambda>(result, h). (result, roll (h 7), compAccelZ (h 7)))
       (applyImprovedComplementaryFilterStore [7] (Fin 0.98) (\<lambda>a. restPoint 0))
     = Some ([7], Some (Fin 180), Some (Fin (- 1)))"
    unfolding applyImprovedComplementaryFilterStore_def Let_def
    by (simp add: a compensate_rest accelRollOf_rest accelPitchOf_rest i setCompAccel_def)
  show ?thesis using plain improved by (simp add: restPoint_def)
qed

subsection \<open>The filters only look back\<close>

lemma kalmanLoopStore_kalmanLoop:
  assumes "distinct refs" "prevRef \<notin> set refs"
  shows "kalmanLoopStore prevRef st refs h
       = map_option (\<lambda>out. writeAll refs out h) (kalmanLoop (h prevRef) st (map h refs))"
  using assms
proof (induction refs arbitrary: prevRef st h)
  case Nil
  then show ?case by simp
next
  case (Cons r refs)
  show ?case
  proof (cases "kalmanStep (h prevRef) st (h r)")
    case None
    then show ?thesis by simp
  next
    case (Some st1)
    let ?p = "setAngles (kalmanAngles (fst st1)) (h r)"
    let ?h = "h(r := ?p)"
    have r: "r \<notin> set refs" "distinct refs" using Cons.prems by simp_all
    have "kalmanLoopStore r st1 refs ?h
       = map_option (\<lambda>out. writeAll refs out ?h) (kalmanLoop (?h r) st1 (map ?h refs))"
      by (rule Cons.IH) (use r in simp_all)
    then have ih: "kalmanLoopStore r st1 refs ?h
       = map_option (\<lambda>out. writeAll refs out ?h) (kalmanLoop ?p st1 (map h refs))"
      unfolding map_fun_upd_notin[OF r(1)] fun_upd_same .
    show ?thesis
      using Some ih by (cases "kalmanLoop ?p st1 (map h refs)") simp_all
  qed
qed

lemma applyKalmanFilterStore_pure:
  assumes "distinct data"
  shows "applyKalmanFilterStore data h
       = map_option (\<lambda>out. (data, writeAll data out h)) (applyKalmanFilter (map h data))"
proof (cases data)
  case Nil
  then show ?thesis by (simp add: applyKalmanFilterStore_def applyKalmanFilter_def)
next
  case (Cons r rest)
  let ?p = "setAngles (kalmanAngles (fst (kalmanInit (h r)))) (h r)"
  have r: "r \<notin> set rest" "distinct rest" using assms Cons by simp_all
  have "kalmanLoopStore r (kalmanInit (h r)) rest (h(r := ?p))
      = map_option (\<lambda>out. writeAll rest out (h(r := ?p)))
          (kalmanLoop ((h(r := ?p)) r) (kalmanInit (h r)) (map (h(r := ?p)) rest))"
    by (rule kalmanLoopStore_kalmanLoop) (use r in simp_all)
  then have l: "kalmanLoopStore r (kalmanInit (h r)) rest (h(r := ?p))
      = map_option (\<lambda>out. writeAll rest out (h(r := ?p))) (kalmanLoop ?p (kalmanInit (h r)) (map h rest))"
    unfolding map_fun_upd_notin[OF r(1)] fun_upd_same .
  show ?thesis
    unfolding applyKalmanFilterStore_def applyKalmanFilter_def Let_def Cons list.case list.map l
    by (cases "kalmanLoop ?p (kalmanInit (h r)) (map h rest)") simp_all
qed

lemma madgwickLoopStore_madgwickLoop:
  assumes "distinct refs" "case prevRef of None \<Rightarrow> True | Some r \<Rightarrow> r \<notin> set refs"
  shows "madgwickLoopStore beta prevRef q refs h
       = map_option (\<lambda>out. writeAll refs out h)
           (madgwickLoop beta (map_option h prevRef) q (map h refs))"
  using assms
proof (induction refs arbitrary: prevRef q h)
  case Nil
  then show ?case by simp
next
  case (Cons r refs)
  show ?case
  proof (cases "madgwickStep beta (map_option h prevRef) q (h r)")
    case None
    then show ?thesis by simp
  next
    case (Some res)
    obtain q1 angles where res: "res = (q1, angles)" by (cases res) auto
    let ?p = "setAngles angles (h r)"
    let ?h = "h(r := ?p)"
    have r: "r \<notin> set refs" "distinct refs" using Cons.prems by simp_all
    have "madgwickLoopStore beta (Some r) q1 refs ?h
       = map_option (\<lambda>out. writeAll refs out ?h)
           (madgwickLoop beta (map_option ?h (Some r)) q1 (map ?h refs))"
      by (rule Cons.IH) (use r in simp_all)
    then have ih: "madgwickLoopStore beta (Some r) q1 refs ?h
       = map_option (\<lambda>out. writeAll refs out ?h) (madgwickLoop beta (Some ?p) q1 (map h refs))"
      unfolding map_fun_upd_notin[OF r(1)] option.map fun_upd_same .
    show ?thesis
      using Some res ih by (cases "madgwickLoop beta (Some ?p) q1 (map h refs)") simp_all
  qed
qed

lemma applyMadgwickFilterStore_pure:
  assumes "distinct data"
  shows "applyMadgwickFilterStore data beta h
       = map_option (\<lambda>out. (data, writeAll data out h)) (applyMadgwickFilter (map h data) beta)"
proof (cases data)
  case Nil
  then show ?thesis by (simp add: applyMadgwickFilterStore_def applyMadgwickFilter_def)
next
  case (Cons r rest)
  show ?thesis
    unfolding applyMadgwickFilterStore_def applyMadgwickFilter_def Let_def
      madgwickLoopStore_madgwickLoop[OF assms, of None, simplified]
    unfolding Cons
    by (simp add: map_option_case split: option.splits)
qed

text \<open>What is written at an address of a list of distinct addresses.\<close>

lemma writeAll_notin: "r \<notin> set refs \<Longrightarrow> writeAll refs out h r = h r"
proof (induction refs arbitrary: out h)
  case Nil
  then show ?case by simp
next
  case (Cons a refs)
  then show ?case by (cases out) (simp_all add: writeAll_def)
qed

lemma writeAll_nth:
  "distinct refs \<Longrightarrow> length out = length refs \<Longrightarrow> i < length refs
     \<Longrightarrow> writeAll refs out h (refs ! i) = out ! i"
proof (induction refs arbitrary: out h i)
  case Nil
  then show ?case by simp
next
  case (Cons a refs)
  obtain p ps where out: "out = p # ps" using Cons.prems(2) by (cases out) auto
  show ?case
  proof (cases i)
    case 0
    then show ?thesis using Cons.prems out by (simp add: writeAll_notin)
  next
    case (Suc j)
    have "writeAll refs ps (h(a := p)) (refs ! j) = ps ! j"
      by (rule Cons.IH) (use Cons.prems out Suc in simp_all)
    then show ?thesis using out Suc by simp
  qed
qed

text \<open>
  A filter on the store that, on distinct addresses, computes what a filter \<open>f\<close> on
  the values computes, for an \<open>f\<close> that only looks back: two runs on arrays of
  distinct objects that start with the same objects \<open>rs\<close>, in stores that agree on
  them, leave the same fused samples at \<open>rs\<close>; and a run on \<open>rs @ ss\<close> that returns
  has a run on \<open>rs\<close> alone that returns.
\<close>

lemma store_looks_back:
  assumes pure: "\<And>d h. distinct d \<Longrightarrow> fS d h = map_option (\<lambda>out. (d, writeAll d out h)) (f (map h d))"
    and p: "\<And>xs ys out. f (xs @ ys) = Some out \<Longrightarrow> f xs = Some (take (length xs) out)"
    and l: "\<And>d out. f d = Some out \<Longrightarrow> length out = length d"
    and d: "distinct (rs @ ss)"
    and r: "fS (rs @ ss) h = Some (res, h1)"
  shows "(\<exists>h2. fS rs h = Some (rs, h2) \<and> (\<forall>a \<in> set rs. h2 a = h1 a))
       \<and> (\<forall>ts h' res' h1'. distinct (rs @ ts) \<longrightarrow> (\<forall>a \<in> set rs. h' a = h a)
              \<longrightarrow> fS (rs @ ts) h' = Some (res', h1') \<longrightarrow> (\<forall>a \<in> set rs. h1' a = h1 a))"
proof -
  have at: "\<forall>i < length rs. g1 (rs ! i) = out ! i"
    if "distinct (rs @ us)" "fS (rs @ us) g = Some (res0, g1)"
      "f (map g rs @ map g us) = Some out" for us g res0 g1 out
  proof (intro allI impI)
    fix i assume i: "i < length rs"
    have "fS (rs @ us) g = map_option (\<lambda>out. (rs @ us, writeAll (rs @ us) out g)) (f (map g (rs @ us)))"
      using pure[OF that(1)] .
    then have g1: "g1 = writeAll (rs @ us) out g" using that(2,3) by simp
    have len: "length out = length (rs @ us)" using l[OF that(3)] by simp
    have "writeAll (rs @ us) out g ((rs @ us) ! i) = out ! i"
      by (rule writeAll_nth[OF that(1) len]) (use i in simp)
    then show "g1 (rs ! i) = out ! i" using g1 i by (simp add: nth_append)
  qed
  obtain out where out: "f (map h rs @ map h ss) = Some out"
    using r pure[OF d, of h] by (cases "f (map h (rs @ ss))") auto
  have h1: "\<forall>i < length rs. h1 (rs ! i) = out ! i" using at[OF d r out] .
  have drs: "distinct rs" using d by simp
  have prs: "f (map h rs) = Some (take (length (map h rs)) out)" using p[OF out] .
  then have frs: "fS rs h = Some (rs, writeAll rs (take (length rs) out) h)"
    using pure[OF drs, of h] by simp
  have "\<forall>i < length rs. writeAll rs (take (length rs) out) h (rs ! i) = take (length rs) out ! i"
    using at[of "[]" h rs "writeAll rs (take (length rs) out) h" "take (length rs) out"] drs frs prs
    by simp
  then have first: "\<forall>a \<in> set rs. writeAll rs (take (length rs) out) h a = h1 a"
    using h1 by (auto simp: in_set_conv_nth)
  have second: "\<forall>a \<in> set rs. h1' a = h1 a"
    if t: "distinct (rs @ ts)" "\<forall>a \<in> set rs. h' a = h a" "fS (rs @ ts) h' = Some (res', h1')"
    for ts h' res' h1'
  proof -
    have m: "map h' rs = map h rs" using t(2) by simp
    obtain o2 where o2: "f (map h' rs @ map h' ts) = Some o2"
      using t(3) pure[OF t(1), of h'] by (cases "f (map h' (rs @ ts))") auto
    have a2: "\<forall>i < length rs. h1' (rs ! i) = o2 ! i" using at[OF t(1) t(3) o2] .
    have "take (length (map h rs)) o2 = take (length (map h rs)) out"
      using p[OF o2[unfolded m]] p[OF out] by simp
    then have "\<forall>i < length rs. o2 ! i = out ! i"
      by (metis length_map nth_take)
    then show ?thesis using a2 h1 by (auto simp: in_set_conv_nth)
  qed
  show ?thesis using frs first second by blast
qed


lemma compLoop_length: "compLoop alpha prev st xs = Some out \<Longrightarrow> length out = length xs"
  by (induction xs arbitrary: prev st out) (auto simp: Let_def split: bind_splits)

lemma improvedLoop_length: "improvedLoop alpha prev st xs = Some out \<Longrightarrow> length out = length xs"
  by (induction xs arbitrary: prev st out) (auto simp: Let_def split: bind_splits)

lemma kalmanLoop_length: "kalmanLoop prev st xs = Some out \<Longrightarrow> length out = length xs"
  by (induction xs arbitrary: prev st out) (auto simp: Let_def split: bind_splits)

lemma madgwickLoop_length: "madgwickLoop beta prev q xs = Some out \<Longrightarrow> length out = length xs"
  by (induction xs arbitrary: prev q out) (auto simp: Let_def split: bind_splits)

lemma applyComplementaryFilter_length:
  "applyComplementaryFilter data alpha = Some out \<Longrightarrow> length out = length data"
  by (cases data)
     (auto simp: applyComplementaryFilter_def Let_def simp del: compLoop.simps
           dest!: compLoop_length)

lemma applyImprovedComplementaryFilter_length:
  "applyImprovedComplementaryFilter data alpha = Some out \<Longrightarrow> length out = length data"
  by (cases data)
     (auto simp: applyImprovedComplementaryFilter_def Let_def simp del: improvedLoop.simps
           split: prod.splits dest!: improvedLoop_length)

lemma applyKalmanFilter_length: "applyKalmanFilter data = Some out \<Longrightarrow> length out = length data"
  by (cases data)
     (auto simp: applyKalmanFilter_def Let_def simp del: kalmanLoop.simps
           split: bind_splits dest!: kalmanLoop_length)

lemma applyMadgwickFilter_length:
  "applyMadgwickFilter data beta = Some out \<Longrightarrow> length out = length data"
  by (cases data)
     (auto simp: applyMadgwickFilter_def simp del: madgwickLoop.simps dest!: madgwickLoop_length)

lemma applyMadgwickFilter_returns: "\<exists>out. applyMadgwickFilter data beta = Some out"
  using madgwickLoop_returns[of beta None "(Fin 1, Fin 0, Fin 0, Fin 0)" data]
  by (cases data) (auto simp: applyMadgwickFilter_def)

text \<open>
  What a filter \<open>f\<close> that only looks back satisfies: when it returns on a sequence, it
  returns on every prefix of it with the same fused samples, and any other run on a
  sequence with the same prefix returns the same fused samples there.
\<close>

lemma looks_back:
  assumes p: "\<And>xs ys out. f (xs @ ys) = Some out \<Longrightarrow> f xs = Some (take (length xs) out)"
    and l: "\<And>d out. f d = Some out \<Longrightarrow> length out = length d"
    and r: "f (xs @ ys) = Some out"
  shows "length out = length xs + length ys \<and> f xs = Some (take (length xs) out)
       \<and> (\<forall>o2. f (xs @ zs) = Some o2 \<longrightarrow> (\<forall>i < length xs. o2 ! i = out ! i))"
proof (intro conjI allI impI)
  show "length out = length xs + length ys" using l[OF r] by simp
  show "f xs = Some (take (length xs) out)" using p[OF r] .
next
  fix o2 i
  assume o2: "f (xs @ zs) = Some o2" and i: "i < length xs"
  have "take (length xs) o2 = take (length xs) out" using p[OF r] p[OF o2] by simp
  then have "take (length xs) o2 ! i = take (length xs) out ! i" by simp
  then show "o2 ! i = out ! i" using i by simp
qed

text \<open>
  C7, as the specification states it, fails: a later sample can take away the fused
  sample at an earlier index. On one sample at rest each complementary filter returns
  the fused sample. With \<open>runawayPoint\<close> after it the yaw becomes Infinity, the loop
  \<^verbatim>\<open>while (yaw > 180) yaw -= 360\<close> never ends, and the filter returns nothing, the
  fused sample at index 0 included. And on an array that holds the same object twice, at
  the indices 0 and 2, the turn at index 2 writes again the object that is the fused
  sample at index 0: its yaw is 0 after a run on the first two elements, and 12.5 after
  a run on the three.
\<close>

theorem later_sample_stops_run:
  "applyComplementaryFilter [restPoint 0] (Fin 0.98)
     = Some [setAngles (Fin 180, Fin 0, Fin 0) (restPoint 0)]
   \<and> applyComplementaryFilter [restPoint 0, runawayPoint] (Fin 0.98) = None
   \<and> map_option (map (\<lambda>p. (roll p, pitch p, yaw p)))
        (applyImprovedComplementaryFilter [restPoint 0] (Fin 0.98))
     = Some [(Some (Fin 180), Some (Fin 0), Some (Fin 0))]
   \<and> applyImprovedComplementaryFilter [restPoint 0, runawayPoint] (Fin 0.98) = None
   \<and> map_option (\<lambda>(result, h). (result, yaw (h 7)))
        (applyComplementaryFilterStore [7, 8] (Fin 0.98) turningStore)
     = Some ([7, 8], Some (Fin 0))
   \<and> map_option (\<lambda>(result, h). (result, yaw (h 7)))
        (applyComplementaryFilterStore [7, 8, 7] (Fin 0.98) turningStore)
     = Some ([7, 8, 7], Some (Fin 12.5))"
proof -
  have a: "applyComplementaryFilter [restPoint 0] (Fin 0.98)
     = Some [setAngles (Fin 180, Fin 0, Fin 0) (restPoint 0)]"
    by (simp add: applyComplementaryFilter_def compStep_first restPoint_def
        accelRollOf_rest accelPitchOf_rest)
  have b: "applyComplementaryFilter [restPoint 0, runawayPoint] (Fin 0.98) = None"
    unfolding applyComplementaryFilter_def
    by (simp add: compStep_def runawayPoint_def wrap180_PInf restPoint_def setAngles_def
        calculateDt_def Let_def accelRollOf_rest accelPitchOf_rest)
  have c: "map_option (map (\<lambda>p. (roll p, pitch p, yaw p)))
        (applyImprovedComplementaryFilter [restPoint 0] (Fin 0.98))
     = Some [(Some (Fin 180), Some (Fin 0), Some (Fin 0))]"
    unfolding applyImprovedComplementaryFilter_def
    by (simp add: improvedStep_def compensateAcceleration_def sensorPositionVector_def
        distanceFromCM_def nth_num_def eval_defs)
  have d: "applyImprovedComplementaryFilter [restPoint 0, runawayPoint] (Fin 0.98) = None"
    unfolding applyImprovedComplementaryFilter_def
    by (simp add: improvedStep_def compensateAcceleration_def sensorPositionVector_def
        distanceFromCM_def nth_num_def runawayPoint_def wrap180_PInf restPoint_def
        setAngles_def setCompAccel_def calculateDt_def Let_def accelRollOf_rest
        accelPitchOf_rest)
  have e: "map_option (\<lambda>(result, h). (result, yaw (h 7)))
        (applyComplementaryFilterStore [7, 8] (Fin 0.98) turningStore)
     = Some ([7, 8], Some (Fin 0))"
    unfolding applyComplementaryFilterStore_def
    by (simp add: compStep_def turningStore_def eval_defs)
  have f: "map_option (\<lambda>(result, h). (result, yaw (h 7)))
        (applyComplementaryFilterStore [7, 8, 7] (Fin 0.98) turningStore)
     = Some ([7, 8, 7], Some (Fin 12.5))"
    unfolding applyComplementaryFilterStore_def
    by (simp add: compStep_def turningStore_def eval_defs)
  show ?thesis using a b c d e f by (intro conjI)
qed

text \<open>
  C7, amended. Each filter only looks back: when it returns on \<open>xs @ ys\<close> it returns
  one fused sample for each sample, it returns on \<open>xs\<close> alone, with the same fused
  samples, and every other run that returns on a sequence that starts with \<open>xs\<close> has
  the same fused samples at the indices below \<open>length xs\<close>. The Madgwick filter returns
  on every sequence. The samples are values there, that is, distinct objects. On the
  store the same holds of arrays of distinct objects: a run that returns on
  \<open>rs @ ss\<close> has a run on \<open>rs\<close> alone that returns and leaves the same objects at
  \<open>rs\<close>, and so does every run that returns on an array that starts with \<open>rs\<close>, in
  a store with the same objects at \<open>rs\<close>.
\<close>

theorem fusion_causal:
  "(\<forall>out. applyComplementaryFilter (xs @ ys) alpha = Some out \<longrightarrow>
       length out = length xs + length ys
       \<and> applyComplementaryFilter xs alpha = Some (take (length xs) out)
       \<and> (\<forall>o2. applyComplementaryFilter (xs @ zs) alpha = Some o2
              \<longrightarrow> (\<forall>i < length xs. o2 ! i = out ! i)))
   \<and> (\<forall>out. applyImprovedComplementaryFilter (xs @ ys) alpha = Some out \<longrightarrow>
       length out = length xs + length ys
       \<and> applyImprovedComplementaryFilter xs alpha = Some (take (length xs) out)
       \<and> (\<forall>o2. applyImprovedComplementaryFilter (xs @ zs) alpha = Some o2
              \<longrightarrow> (\<forall>i < length xs. o2 ! i = out ! i)))
   \<and> (\<forall>out. applyKalmanFilter (xs @ ys) = Some out \<longrightarrow>
       length out = length xs + length ys
       \<and> applyKalmanFilter xs = Some (take (length xs) out)
       \<and> (\<forall>o2. applyKalmanFilter (xs @ zs) = Some o2 \<longrightarrow> (\<forall>i < length xs. o2 ! i = out ! i)))
   \<and> (\<exists>out o2. applyMadgwickFilter (xs @ ys) beta = Some out
       \<and> length out = length xs + length ys
       \<and> applyMadgwickFilter xs beta = Some (take (length xs) out)
       \<and> applyMadgwickFilter (xs @ zs) beta = Some o2
       \<and> (\<forall>i < length xs. o2 ! i = out ! i))
   \<and> (distinct (rs @ ss) \<longrightarrow>
       (\<forall>res h1. applyComplementaryFilterStore (rs @ ss) alpha h = Some (res, h1) \<longrightarrow>
          (\<exists>h2. applyComplementaryFilterStore rs alpha h = Some (rs, h2) \<and> (\<forall>a \<in> set rs. h2 a = h1 a))
          \<and> (\<forall>ts h' res' h1'. distinct (rs @ ts) \<longrightarrow> (\<forall>a \<in> set rs. h' a = h a)
                \<longrightarrow> applyComplementaryFilterStore (rs @ ts) alpha h' = Some (res', h1')
                \<longrightarrow> (\<forall>a \<in> set rs. h1' a = h1 a))))
   \<and> (distinct (rs @ ss) \<longrightarrow>
       (\<forall>res h1. applyImprovedComplementaryFilterStore (rs @ ss) alpha h = Some (res, h1) \<longrightarrow>
          (\<exists>h2. applyImprovedComplementaryFilterStore rs alpha h = Some (rs, h2) \<and> (\<forall>a \<in> set rs. h2 a = h1 a))
          \<and> (\<forall>ts h' res' h1'. distinct (rs @ ts) \<longrightarrow> (\<forall>a \<in> set rs. h' a = h a)
                \<longrightarrow> applyImprovedComplementaryFilterStore (rs @ ts) alpha h' = Some (res', h1')
                \<longrightarrow> (\<forall>a \<in> set rs. h1' a = h1 a))))
   \<and> (distinct (rs @ ss) \<longrightarrow>
       (\<forall>res h1. applyKalmanFilterStore (rs @ ss) h = Some (res, h1) \<longrightarrow>
          (\<exists>h2. applyKalmanFilterStore rs h = Some (rs, h2) \<and> (\<forall>a \<in> set rs. h2 a = h1 a))
          \<and> (\<forall>ts h' res' h1'. distinct (rs @ ts) \<longrightarrow> (\<forall>a \<in> set rs. h' a = h a)
                \<longrightarrow> applyKalmanFilterStore (rs @ ts) h' = Some (res', h1')
                \<longrightarrow> (\<forall>a \<in> set rs. h1' a = h1 a))))
   \<and> (distinct (rs @ ss) \<longrightarrow>
       (\<forall>res h1. applyMadgwickFilterStore (rs @ ss) beta h = Some (res, h1) \<longrightarrow>
          (\<exists>h2. applyMadgwickFilterStore rs beta h = Some (rs, h2) \<and> (\<forall>a \<in> set rs. h2 a = h1 a))
          \<and> (\<forall>ts h' res' h1'. distinct (rs @ ts) \<longrightarrow> (\<forall>a \<in> set rs. h' a = h a)
                \<longrightarrow> applyMadgwickFilterStore (rs @ ts) beta h' = Some (res', h1')
                \<longrightarrow> (\<forall>a \<in> set rs. h1' a = h1 a))))"
proof -
  have sc: "(distinct (rs @ ss) \<longrightarrow>
       (\<forall>res h1. applyComplementaryFilterStore (rs @ ss) alpha h = Some (res, h1) \<longrightarrow>
          (\<exists>h2. applyComplementaryFilterStore rs alpha h = Some (rs, h2) \<and> (\<forall>a \<in> set rs. h2 a = h1 a))
          \<and> (\<forall>ts h' res' h1'. distinct (rs @ ts) \<longrightarrow> (\<forall>a \<in> set rs. h' a = h a)
                \<longrightarrow> applyComplementaryFilterStore (rs @ ts) alpha h' = Some (res', h1')
                \<longrightarrow> (\<forall>a \<in> set rs. h1' a = h1 a))))"
  proof (intro impI allI)
    fix res h1
    assume d: "distinct (rs @ ss)" and r: "applyComplementaryFilterStore (rs @ ss) alpha h = Some (res, h1)"
    have pure: "\<And>d h. distinct d \<Longrightarrow> applyComplementaryFilterStore d alpha h
        = map_option (\<lambda>out. (d, writeAll d out h)) (applyComplementaryFilter (map h d) alpha)"
      by (rule applyComplementaryFilterStore_pure)
    have p: "\<And>xs ys out. applyComplementaryFilter (xs @ ys) alpha = Some out
        \<Longrightarrow> applyComplementaryFilter xs alpha = Some (take (length xs) out)"
      by (rule applyComplementaryFilter_prefix)
    have l: "\<And>d out. applyComplementaryFilter d alpha = Some out \<Longrightarrow> length out = length d"
      by (rule applyComplementaryFilter_length)
    show "(\<exists>h2. applyComplementaryFilterStore rs alpha h = Some (rs, h2) \<and> (\<forall>a \<in> set rs. h2 a = h1 a))
          \<and> (\<forall>ts h' res' h1'. distinct (rs @ ts) \<longrightarrow> (\<forall>a \<in> set rs. h' a = h a)
                \<longrightarrow> applyComplementaryFilterStore (rs @ ts) alpha h' = Some (res', h1')
                \<longrightarrow> (\<forall>a \<in> set rs. h1' a = h1 a))"
      by (rule store_looks_back[of "\<lambda>d. applyComplementaryFilterStore d alpha" "\<lambda>d. applyComplementaryFilter d alpha", OF pure p l d r])
  qed
  have si: "(distinct (rs @ ss) \<longrightarrow>
       (\<forall>res h1. applyImprovedComplementaryFilterStore (rs @ ss) alpha h = Some (res, h1) \<longrightarrow>
          (\<exists>h2. applyImprovedComplementaryFilterStore rs alpha h = Some (rs, h2) \<and> (\<forall>a \<in> set rs. h2 a = h1 a))
          \<and> (\<forall>ts h' res' h1'. distinct (rs @ ts) \<longrightarrow> (\<forall>a \<in> set rs. h' a = h a)
                \<longrightarrow> applyImprovedComplementaryFilterStore (rs @ ts) alpha h' = Some (res', h1')
                \<longrightarrow> (\<forall>a \<in> set rs. h1' a = h1 a))))"
  proof (intro impI allI)
    fix res h1
    assume d: "distinct (rs @ ss)" and r: "applyImprovedComplementaryFilterStore (rs @ ss) alpha h = Some (res, h1)"
    have pure: "\<And>d h. distinct d \<Longrightarrow> applyImprovedComplementaryFilterStore d alpha h
        = map_option (\<lambda>out. (d, writeAll d out h)) (applyImprovedComplementaryFilter (map h d) alpha)"
      by (rule applyImprovedComplementaryFilterStore_pure)
    have p: "\<And>xs ys out. applyImprovedComplementaryFilter (xs @ ys) alpha = Some out
        \<Longrightarrow> applyImprovedComplementaryFilter xs alpha = Some (take (length xs) out)"
      by (rule applyImprovedComplementaryFilter_prefix)
    have l: "\<And>d out. applyImprovedComplementaryFilter d alpha = Some out \<Longrightarrow> length out = length d"
      by (rule applyImprovedComplementaryFilter_length)
    show "(\<exists>h2. applyImprovedComplementaryFilterStore rs alpha h = Some (rs, h2) \<and> (\<forall>a \<in> set rs. h2 a = h1 a))
          \<and> (\<forall>ts h' res' h1'. distinct (rs @ ts) \<longrightarrow> (\<forall>a \<in> set rs. h' a = h a)
                \<longrightarrow> applyImprovedComplementaryFilterStore (rs @ ts) alpha h' = Some (res', h1')
                \<longrightarrow> (\<forall>a \<in> set rs. h1' a = h1 a))"
      by (rule store_looks_back[of "\<lambda>d. applyImprovedComplementaryFilterStore d alpha" "\<lambda>d. applyImprovedComplementaryFilter d alpha", OF pure p l d r])
  qed
  have sk: "(distinct (rs @ ss) \<longrightarrow>
       (\<forall>res h1. applyKalmanFilterStore (rs @ ss) h = Some (res, h1) \<longrightarrow>
          (\<exists>h2. applyKalmanFilterStore rs h = Some (rs, h2) \<and> (\<forall>a \<in> set rs. h2 a = h1 a))
          \<and> (\<forall>ts h' res' h1'. distinct (rs @ ts) \<longrightarrow> (\<forall>a \<in> set rs. h' a = h a)
                \<longrightarrow> applyKalmanFilterStore (rs @ ts) h' = Some (res', h1')
                \<longrightarrow> (\<forall>a \<in> set rs. h1' a = h1 a))))"
  proof (intro impI allI)
    fix res h1
    assume d: "distinct (rs @ ss)" and r: "applyKalmanFilterStore (rs @ ss) h = Some (res, h1)"
    have pure: "\<And>d h. distinct d \<Longrightarrow> applyKalmanFilterStore d h
        = map_option (\<lambda>out. (d, writeAll d out h)) (applyKalmanFilter (map h d))"
      by (rule applyKalmanFilterStore_pure)
    have p: "\<And>xs ys out. applyKalmanFilter (xs @ ys) = Some out
        \<Longrightarrow> applyKalmanFilter xs = Some (take (length xs) out)"
      by (rule applyKalmanFilter_prefix)
    have l: "\<And>d out. applyKalmanFilter d = Some out \<Longrightarrow> length out = length d"
      by (rule applyKalmanFilter_length)
    show "(\<exists>h2. applyKalmanFilterStore rs h = Some (rs, h2) \<and> (\<forall>a \<in> set rs. h2 a = h1 a))
          \<and> (\<forall>ts h' res' h1'. distinct (rs @ ts) \<longrightarrow> (\<forall>a \<in> set rs. h' a = h a)
                \<longrightarrow> applyKalmanFilterStore (rs @ ts) h' = Some (res', h1')
                \<longrightarrow> (\<forall>a \<in> set rs. h1' a = h1 a))"
      by (rule store_looks_back[of "applyKalmanFilterStore" "applyKalmanFilter", OF pure p l d r])
  qed
  have sm: "(distinct (rs @ ss) \<longrightarrow>
       (\<forall>res h1. applyMadgwickFilterStore (rs @ ss) beta h = Some (res, h1) \<longrightarrow>
          (\<exists>h2. applyMadgwickFilterStore rs beta h = Some (rs, h2) \<and> (\<forall>a \<in> set rs. h2 a = h1 a))
          \<and> (\<forall>ts h' res' h1'. distinct (rs @ ts) \<longrightarrow> (\<forall>a \<in> set rs. h' a = h a)
                \<longrightarrow> applyMadgwickFilterStore (rs @ ts) beta h' = Some (res', h1')
                \<longrightarrow> (\<forall>a \<in> set rs. h1' a = h1 a))))"
  proof (intro impI allI)
    fix res h1
    assume d: "distinct (rs @ ss)" and r: "applyMadgwickFilterStore (rs @ ss) beta h = Some (res, h1)"
    have pure: "\<And>d h. distinct d \<Longrightarrow> applyMadgwickFilterStore d beta h
        = map_option (\<lambda>out. (d, writeAll d out h)) (applyMadgwickFilter (map h d) beta)"
      by (rule applyMadgwickFilterStore_pure)
    have p: "\<And>xs ys out. applyMadgwickFilter (xs @ ys) beta = Some out
        \<Longrightarrow> applyMadgwickFilter xs beta = Some (take (length xs) out)"
      by (rule applyMadgwickFilter_prefix)
    have l: "\<And>d out. applyMadgwickFilter d beta = Some out \<Longrightarrow> length out = length d"
      by (rule applyMadgwickFilter_length)
    show "(\<exists>h2. applyMadgwickFilterStore rs beta h = Some (rs, h2) \<and> (\<forall>a \<in> set rs. h2 a = h1 a))
          \<and> (\<forall>ts h' res' h1'. distinct (rs @ ts) \<longrightarrow> (\<forall>a \<in> set rs. h' a = h a)
                \<longrightarrow> applyMadgwickFilterStore (rs @ ts) beta h' = Some (res', h1')
                \<longrightarrow> (\<forall>a \<in> set rs. h1' a = h1 a))"
      by (rule store_looks_back[of "\<lambda>d. applyMadgwickFilterStore d beta" "\<lambda>d. applyMadgwickFilter d beta", OF pure p l d r])
  qed
  have c: "\<forall>out. applyComplementaryFilter (xs @ ys) alpha = Some out \<longrightarrow>
       length out = length xs + length ys
       \<and> applyComplementaryFilter xs alpha = Some (take (length xs) out)
       \<and> (\<forall>o2. applyComplementaryFilter (xs @ zs) alpha = Some o2
              \<longrightarrow> (\<forall>i < length xs. o2 ! i = out ! i))"
  proof (intro allI impI)
    fix out assume r: "applyComplementaryFilter (xs @ ys) alpha = Some out"
    have p: "\<And>xs ys out. applyComplementaryFilter (xs @ ys) alpha = Some out
        \<Longrightarrow> applyComplementaryFilter xs alpha = Some (take (length xs) out)"
      by (rule applyComplementaryFilter_prefix)
    have l: "\<And>d out. applyComplementaryFilter d alpha = Some out \<Longrightarrow> length out = length d"
      by (rule applyComplementaryFilter_length)
    show "length out = length xs + length ys
       \<and> applyComplementaryFilter xs alpha = Some (take (length xs) out)
       \<and> (\<forall>o2. applyComplementaryFilter (xs @ zs) alpha = Some o2
              \<longrightarrow> (\<forall>i < length xs. o2 ! i = out ! i))"
      by (rule looks_back[of "\<lambda>d. applyComplementaryFilter d alpha", OF p l r])
  qed
  have i: "\<forall>out. applyImprovedComplementaryFilter (xs @ ys) alpha = Some out \<longrightarrow>
       length out = length xs + length ys
       \<and> applyImprovedComplementaryFilter xs alpha = Some (take (length xs) out)
       \<and> (\<forall>o2. applyImprovedComplementaryFilter (xs @ zs) alpha = Some o2
              \<longrightarrow> (\<forall>i < length xs. o2 ! i = out ! i))"
  proof (intro allI impI)
    fix out assume r: "applyImprovedComplementaryFilter (xs @ ys) alpha = Some out"
    have p: "\<And>xs ys out. applyImprovedComplementaryFilter (xs @ ys) alpha = Some out
        \<Longrightarrow> applyImprovedComplementaryFilter xs alpha = Some (take (length xs) out)"
      by (rule applyImprovedComplementaryFilter_prefix)
    have l: "\<And>d out. applyImprovedComplementaryFilter d alpha = Some out \<Longrightarrow> length out = length d"
      by (rule applyImprovedComplementaryFilter_length)
    show "length out = length xs + length ys
       \<and> applyImprovedComplementaryFilter xs alpha = Some (take (length xs) out)
       \<and> (\<forall>o2. applyImprovedComplementaryFilter (xs @ zs) alpha = Some o2
              \<longrightarrow> (\<forall>i < length xs. o2 ! i = out ! i))"
      by (rule looks_back[of "\<lambda>d. applyImprovedComplementaryFilter d alpha", OF p l r])
  qed
  have k: "\<forall>out. applyKalmanFilter (xs @ ys) = Some out \<longrightarrow>
       length out = length xs + length ys
       \<and> applyKalmanFilter xs = Some (take (length xs) out)
       \<and> (\<forall>o2. applyKalmanFilter (xs @ zs) = Some o2 \<longrightarrow> (\<forall>i < length xs. o2 ! i = out ! i))"
  proof (intro allI impI)
    fix out assume r: "applyKalmanFilter (xs @ ys) = Some out"
    have p: "\<And>xs ys out. applyKalmanFilter (xs @ ys) = Some out
        \<Longrightarrow> applyKalmanFilter xs = Some (take (length xs) out)"
      by (rule applyKalmanFilter_prefix)
    have l: "\<And>d out. applyKalmanFilter d = Some out \<Longrightarrow> length out = length d"
      by (rule applyKalmanFilter_length)
    show "length out = length xs + length ys
       \<and> applyKalmanFilter xs = Some (take (length xs) out)
       \<and> (\<forall>o2. applyKalmanFilter (xs @ zs) = Some o2 \<longrightarrow> (\<forall>i < length xs. o2 ! i = out ! i))"
      by (rule looks_back[of applyKalmanFilter, OF p l r])
  qed
  obtain out where out: "applyMadgwickFilter (xs @ ys) beta = Some out"
    using applyMadgwickFilter_returns by blast
  obtain o2 where o2: "applyMadgwickFilter (xs @ zs) beta = Some o2"
    using applyMadgwickFilter_returns by blast
  have p: "\<And>xs ys out. applyMadgwickFilter (xs @ ys) beta = Some out
        \<Longrightarrow> applyMadgwickFilter xs beta = Some (take (length xs) out)"
    by (rule applyMadgwickFilter_prefix)
  have l: "\<And>d out. applyMadgwickFilter d beta = Some out \<Longrightarrow> length out = length d"
    by (rule applyMadgwickFilter_length)
  have "length out = length xs + length ys
       \<and> applyMadgwickFilter xs beta = Some (take (length xs) out)
       \<and> (\<forall>o2. applyMadgwickFilter (xs @ zs) beta = Some o2
              \<longrightarrow> (\<forall>i < length xs. o2 ! i = out ! i))"
    by (rule looks_back[of "\<lambda>d. applyMadgwickFilter d beta", OF p l out])
  with out o2 have m: "\<exists>out o2. applyMadgwickFilter (xs @ ys) beta = Some out
       \<and> length out = length xs + length ys
       \<and> applyMadgwickFilter xs beta = Some (take (length xs) out)
       \<and> applyMadgwickFilter (xs @ zs) beta = Some o2
       \<and> (\<forall>i < length xs. o2 ! i = out ! i)"
    by blast
  show ?thesis using c i k m sc si sk sm by (intro conjI)
qed

theorem fusion_causal_witness:
  "(\<exists>out. applyComplementaryFilter (spinData @ [restPoint 0.2]) (Fin 0.98) = Some out
       \<and> map (\<lambda>p. (roll p, yaw p)) out
           = [(Some (Fin 180), Some (Fin 0)), (Some (Fin 278), Some (Fin (- 160))),
              (Some (Fin 276.04), Some (Fin (- 160)))]
       \<and> length out = length spinData + length [restPoint 0.2]
       \<and> applyComplementaryFilter spinData (Fin 0.98) = Some (take (length spinData) out)
       \<and> (\<forall>o2. applyComplementaryFilter (spinData @ [restPoint 0.3, restPoint 0.4]) (Fin 0.98) = Some o2
              \<longrightarrow> (\<forall>i < length spinData. o2 ! i = out ! i)))
   \<and> (\<exists>out. applyImprovedComplementaryFilter (spinData @ [restPoint 0.2]) (Fin 0.98) = Some out
       \<and> length out = length spinData + length [restPoint 0.2]
       \<and> applyImprovedComplementaryFilter spinData (Fin 0.98) = Some (take (length spinData) out)
       \<and> (\<forall>o2. applyImprovedComplementaryFilter (spinData @ [restPoint 0.3, restPoint 0.4]) (Fin 0.98) = Some o2
              \<longrightarrow> (\<forall>i < length spinData. o2 ! i = out ! i)))
   \<and> (\<exists>out. applyKalmanFilter ([restPoint 0, restPoint 0.1] @ [restPoint 0.2]) = Some out
       \<and> length out = length [restPoint 0, restPoint 0.1] + length [restPoint 0.2]
       \<and> applyKalmanFilter [restPoint 0, restPoint 0.1]
           = Some (take (length [restPoint 0, restPoint 0.1]) out)
       \<and> (\<forall>o2. applyKalmanFilter ([restPoint 0, restPoint 0.1] @ [restPoint 0.3, restPoint 0.4]) = Some o2
              \<longrightarrow> (\<forall>i < length [restPoint 0, restPoint 0.1]. o2 ! i = out ! i)))
   \<and> (\<exists>out o2. applyMadgwickFilter (spinData @ [restPoint 0.2]) (Fin 0.1) = Some out
       \<and> length out = length spinData + length [restPoint 0.2]
       \<and> applyMadgwickFilter spinData (Fin 0.1) = Some (take (length spinData) out)
       \<and> applyMadgwickFilter (spinData @ [restPoint 0.3, restPoint 0.4]) (Fin 0.1) = Some o2
       \<and> (\<forall>i < length spinData. o2 ! i = out ! i))
   \<and> distinct ([7] @ [8 :: nat])
   \<and> (\<exists>res h1 h2. applyComplementaryFilterStore ([7] @ [8]) (Fin 0.98) turningStore = Some (res, h1)
         \<and> applyComplementaryFilterStore [7] (Fin 0.98) turningStore = Some ([7], h2)
         \<and> (\<forall>a \<in> set [7]. h2 a = h1 a))"
proof -
  note s = fusion_causal[of spinData "[restPoint 0.2]" "Fin 0.98" "[restPoint 0.3, restPoint 0.4]"
      "Fin 0.1"]
  note k = fusion_causal[of "[restPoint 0, restPoint 0.1]" "[restPoint 0.2]" "Fin 0.98"
      "[restPoint 0.3, restPoint 0.4]" "Fin 0.1"]
  have "map_option (map (\<lambda>p. (roll p, yaw p)))
          (applyComplementaryFilter (spinData @ [restPoint 0.2]) (Fin 0.98))
        = Some [(Some (Fin 180), Some (Fin 0)), (Some (Fin 278), Some (Fin (- 160))),
              (Some (Fin 276.04), Some (Fin (- 160)))]"
    by (simp add: applyComplementaryFilter_def spinData_def compStep_def eval_defs)
  then obtain c where c: "applyComplementaryFilter (spinData @ [restPoint 0.2]) (Fin 0.98) = Some c"
    "map (\<lambda>p. (roll p, yaw p)) c
           = [(Some (Fin 180), Some (Fin 0)), (Some (Fin 278), Some (Fin (- 160))),
              (Some (Fin 276.04), Some (Fin (- 160)))]"
    by auto
  have "map_option length
          (applyImprovedComplementaryFilter (spinData @ [restPoint 0.2]) (Fin 0.98)) = Some 3"
    by (simp add: applyImprovedComplementaryFilter_def spinData_def improvedStep_def
        compensateAcceleration_def sensorPositionVector_def distanceFromCM_def nth_num_def
        eval_defs)
  then obtain i where i: "applyImprovedComplementaryFilter (spinData @ [restPoint 0.2]) (Fin 0.98) = Some i"
    by auto
  have r: "list_all atRest ([restPoint 0, restPoint 0.1] @ [restPoint 0.2])"
    by (simp add: atRest_restPoint)
  obtain kk where kk: "applyKalmanFilter ([restPoint 0, restPoint 0.1] @ [restPoint 0.2]) = Some kk"
    using applyKalmanFilter_rest[OF r] by blast
  have C: "\<exists>out. applyComplementaryFilter (spinData @ [restPoint 0.2]) (Fin 0.98) = Some out
       \<and> map (\<lambda>p. (roll p, yaw p)) out
           = [(Some (Fin 180), Some (Fin 0)), (Some (Fin 278), Some (Fin (- 160))),
              (Some (Fin 276.04), Some (Fin (- 160)))]
       \<and> length out = length spinData + length [restPoint 0.2]
       \<and> applyComplementaryFilter spinData (Fin 0.98) = Some (take (length spinData) out)
       \<and> (\<forall>o2. applyComplementaryFilter (spinData @ [restPoint 0.3, restPoint 0.4]) (Fin 0.98) = Some o2
              \<longrightarrow> (\<forall>i < length spinData. o2 ! i = out ! i))"
    using s[THEN conjunct1, rule_format, OF c(1)] c by (intro exI[of _ c]) blast
  have I: "\<exists>out. applyImprovedComplementaryFilter (spinData @ [restPoint 0.2]) (Fin 0.98) = Some out
       \<and> length out = length spinData + length [restPoint 0.2]
       \<and> applyImprovedComplementaryFilter spinData (Fin 0.98) = Some (take (length spinData) out)
       \<and> (\<forall>o2. applyImprovedComplementaryFilter (spinData @ [restPoint 0.3, restPoint 0.4]) (Fin 0.98) = Some o2
              \<longrightarrow> (\<forall>i < length spinData. o2 ! i = out ! i))"
    using s[THEN conjunct2, THEN conjunct1, rule_format, OF i] i by (intro exI[of _ i]) blast
  have K: "\<exists>out. applyKalmanFilter ([restPoint 0, restPoint 0.1] @ [restPoint 0.2]) = Some out
       \<and> length out = length [restPoint 0, restPoint 0.1] + length [restPoint 0.2]
       \<and> applyKalmanFilter [restPoint 0, restPoint 0.1]
           = Some (take (length [restPoint 0, restPoint 0.1]) out)
       \<and> (\<forall>o2. applyKalmanFilter ([restPoint 0, restPoint 0.1] @ [restPoint 0.3, restPoint 0.4]) = Some o2
              \<longrightarrow> (\<forall>i < length [restPoint 0, restPoint 0.1]. o2 ! i = out ! i))"
    using k[THEN conjunct2, THEN conjunct2, THEN conjunct1, rule_format, OF kk] kk
    by (intro exI[of _ kk]) blast
  have M: "\<exists>out o2. applyMadgwickFilter (spinData @ [restPoint 0.2]) (Fin 0.1) = Some out
       \<and> length out = length spinData + length [restPoint 0.2]
       \<and> applyMadgwickFilter spinData (Fin 0.1) = Some (take (length spinData) out)
       \<and> applyMadgwickFilter (spinData @ [restPoint 0.3, restPoint 0.4]) (Fin 0.1) = Some o2
       \<and> (\<forall>i < length spinData. o2 ! i = out ! i)"
    using s[THEN conjunct2, THEN conjunct2, THEN conjunct2, THEN conjunct1] .
  have d: "distinct ([7] @ [8 :: nat])" by simp
  note t = fusion_causal[where rs = "[7]" and ss = "[8]" and alpha = "Fin 0.98"
      and h = turningStore]
  have "map_option fst (applyComplementaryFilterStore ([7] @ [8]) (Fin 0.98) turningStore)
      = Some [7, 8]"
    unfolding applyComplementaryFilterStore_def
    by (simp add: compStep_def turningStore_def eval_defs)
  then obtain res h1 where
    r: "applyComplementaryFilterStore ([7] @ [8]) (Fin 0.98) turningStore = Some (res, h1)"
    by auto
  have "\<exists>h2. applyComplementaryFilterStore [7] (Fin 0.98) turningStore = Some ([7], h2)
       \<and> (\<forall>a \<in> set [7]. h2 a = h1 a)"
    using t[THEN conjunct2, THEN conjunct2, THEN conjunct2, THEN conjunct2, THEN conjunct1,
        rule_format, OF d r]
    by (elim conjE)
  with r have S: "\<exists>res h1 h2. applyComplementaryFilterStore ([7] @ [8]) (Fin 0.98) turningStore = Some (res, h1)
         \<and> applyComplementaryFilterStore [7] (Fin 0.98) turningStore = Some ([7], h2)
         \<and> (\<forall>a \<in> set [7]. h2 a = h1 a)"
    by blast
  show ?thesis
    using C I K M d S by (intro conjI)
qed


end
